theory Spec2Isabelle
  imports Complex_Main "HOL-Library.Sublist"
begin

section \<open>The metafile converter of lens\_correction/meta\_to\_collection.py\<close>

text \<open>
  The converter reads a parsed TEMCA metafile (a metadata block and a list of tiles),
  indexes the tiles by raster position, resolves each recorded match to the neighbouring
  tile and appends one correspondence per resolved match. The metafile is taken as parsed:
  every key the code reads by name is present with the JSON type the code expects, the
  only optional keys being \<open>tape_id\<close> and \<open>matcher\<close>, which the code tests with \<open>in\<close>.
  Numbers are Python ints (\<open>int\<close>) for raster positions and direction codes and JSON
  numbers (\<open>real\<close>) for scores and coordinates.
\<close>

subsection \<open>Errors\<close>

text \<open>The exceptions the modelled code can raise: a missing dictionary key, and \<open>max\<close> of
  an empty list.\<close>

datatype error = KeyError | ValueError

subsection \<open>Data\<close>

text \<open>\<open>class Edge(IntEnum)\<close>: the position codes of the metafile.\<close>

datatype Edge = INVALID | CENTER | LEFT | TOP | RIGHT

fun Edge_value :: "Edge \<Rightarrow> int" where
  "Edge_value INVALID = 0"
| "Edge_value CENTER = 1"
| "Edge_value LEFT = 2"
| "Edge_value TOP = 3"
| "Edge_value RIGHT = 4"

text \<open>One entry of a tile's \<open>matcher\<close> list. \<open>position\<close> is the JSON value of the key:
  \<open>None\<close> is JSON null (Python \<open>None\<close>), \<open>Some d\<close> an integer code.\<close>

record raw_match =
  position :: "int option"
  match_quality :: real
  pX :: "real list"
  pY :: "real list"
  qX :: "real list"
  qY :: "real list"

record img_meta =
  raster_pos :: "int \<times> int"
  stage_pos :: "real \<times> real"

record tile =
  img_path :: string
  img_meta :: img_meta
  matcher :: "raw_match list option"

record calibration =
  nm_per_pix :: real
  angle :: real

record metadata =
  temca_id :: string
  session_id :: string
  specimen_id :: string
  tape_id :: "string option"
  calibration_highmag :: calibration

text \<open>The fields of the \<open>args\<close> namespace that the resolver reads.\<close>

record args =
  raster_pos_lookup :: "string \<rightharpoonup> tile"
  trows :: int
  tcols :: int

text \<open>The dictionaries the converter builds.\<close>

record matches =
  p :: "real list list"
  q :: "real list list"
  w :: "int list"
  match_count :: nat

record correspondence =
  pId :: string
  qId :: string
  pGroupId :: string
  qGroupId :: string
  matches :: matches

record tilespec =
  tileId :: string
  xstage :: real
  ystage :: real

text \<open>What \<open>json.dump\<close> is given: the dictionary with the three keys, or the plain list.\<close>

datatype document =
  Rich "correspondence list" calibration "tilespec list"
| Flat "correspondence list"

subsection \<open>Python built-ins\<close>

text \<open>\<open>str\<close> of an int: decimal digits, with a minus sign for a negative number.\<close>

definition digit_char :: "nat \<Rightarrow> char" where
  "digit_char d = char_of (48 + d)"

function str_nat :: "nat \<Rightarrow> string" where
  "str_nat n = (if n < 10 then [digit_char n]
                else str_nat (n div 10) @ [digit_char (n mod 10)])"
  by pat_completeness auto
termination
  by (relation "measure (\<lambda>n. n)") auto

declare str_nat.simps [simp del]

definition str_int :: "int \<Rightarrow> string" where
  "str_int i = (if i < 0 then CHR ''-'' # str_nat (nat (- i)) else str_nat (nat i))"

text \<open>\<open>s.replace(old, new)\<close>: every occurrence of \<open>old\<close>, found from the left and not
  overlapping, becomes \<open>new\<close>; an empty \<open>old\<close> matches before every character and at
  the end.\<close>

function str_replace :: "string \<Rightarrow> string \<Rightarrow> string \<Rightarrow> string" where
  "str_replace old new s =
     (if old = [] then new @ concat (map (\<lambda>c. c # new) s)
      else if s = [] then []
      else if prefix old s then new @ str_replace old new (drop (length old) s)
      else hd s # str_replace old new (tl s))"
  by pat_completeness auto
termination
  by (relation "measure (\<lambda>(old, new, s). length s)") auto

declare str_replace.simps [simp del]

text \<open>\<open>max\<close> of a list raises ValueError on the empty list.\<close>

fun py_max :: "int list \<Rightarrow> error + int" where
  "py_max [] = Inl ValueError"
| "py_max (x # xs) = Inr (fold max xs x)"

text \<open>\<open>d[k]\<close> raises KeyError when the key is missing.\<close>

definition getitem :: "('k \<rightharpoonup> 'v) \<Rightarrow> 'k \<Rightarrow> error + 'v" where
  "getitem d k = (case d k of None \<Rightarrow> Inl KeyError | Some v \<Rightarrow> Inr v)"

subsection \<open>The grid index and the neighbour resolver\<close>

text \<open>The dictionary key \<open>str(col) + "_" + str(row)\<close>.\<close>

definition raster_key :: "int \<Rightarrow> int \<Rightarrow> string" where
  "raster_key col row = str_int col @ ''_'' @ str_int row"

text \<open>\<open>tile_from_raster_pos\<close>: \<open>Inl\<close> is a raised exception, \<open>Inr None\<close> the returned
  \<open>None\<close> (also when no branch of the \<open>if\<close>/\<open>elif\<close> chain is taken and the function
  falls off its end), \<open>Inr (Some t)\<close> a returned tile.\<close>

definition tile_from_raster_pos :: "args \<Rightarrow> int \<Rightarrow> int \<Rightarrow> int option \<Rightarrow> error + tile option" where
  "tile_from_raster_pos a col row direction =
     (case direction of
        None \<Rightarrow> map_sum id Some (getitem (raster_pos_lookup a) (raster_key col row))
      | Some d \<Rightarrow>
          if d = Edge_value LEFT then
            (if col > 0
             then map_sum id Some (getitem (raster_pos_lookup a) (raster_key (col - 1) row))
             else Inr None)
          else if d = Edge_value RIGHT then
            (if col < tcols a
             then map_sum id Some (getitem (raster_pos_lookup a) (raster_key (col + 1) row))
             else Inr None)
          else if d = Edge_value TOP then
            (if row > 0
             then map_sum id Some (getitem (raster_pos_lookup a) (raster_key col (row - 1)))
             else Inr None)
          else Inr None)"

definition tile_from_tile :: "args \<Rightarrow> tile \<Rightarrow> int option \<Rightarrow> error + tile option" where
  "tile_from_tile a t direction =
     (case raster_pos (img_meta t) of (col, row) \<Rightarrow> tile_from_raster_pos a col row direction)"

text \<open>\<open>create_raster_pos_dict\<close>: the loop over \<open>args.data\<close>, a later tile overwriting an
  earlier one with the same key.\<close>

fun create_raster_pos_dict_loop :: "tile list \<Rightarrow> (string \<rightharpoonup> tile) \<Rightarrow> (string \<rightharpoonup> tile)" where
  "create_raster_pos_dict_loop [] d = d"
| "create_raster_pos_dict_loop (t # ts) d =
     (case raster_pos (img_meta t) of (col, row) \<Rightarrow>
        create_raster_pos_dict_loop ts (d(raster_key col row \<mapsto> t)))"

definition create_raster_pos_dict :: "tile list \<Rightarrow> (string \<rightharpoonup> tile)" where
  "create_raster_pos_dict data = create_raster_pos_dict_loop data Map.empty"

subsection \<open>The correspondence extractor\<close>

text \<open>The body of \<open>if neighbor:\<close>: the dictionary appended to \<open>samples\<close>. A tile is a
  dictionary with keys, so a returned tile is true and only \<open>None\<close> is false.\<close>

definition sample :: "string \<Rightarrow> string \<Rightarrow> raw_match \<Rightarrow> tile \<Rightarrow> correspondence" where
  "sample pid gid m neighbor =
     (let p' = [pX m, pY m];
          q' = [qX m, qY m];
          w' = replicate (length (pX m)) 1;
          qid = str_replace ''.tif'' '''' (img_path neighbor)
      in \<lparr>pId = pid, qId = qid, pGroupId = gid, qGroupId = gid,
          matches = \<lparr>p = p', q = q', w = w', match_count = length w'\<rparr>\<rparr>)"

text \<open>The loop \<open>for match in tile['matcher']\<close>, threading \<open>samples\<close>.\<close>

fun process_matches ::
  "args \<Rightarrow> tile \<Rightarrow> string \<Rightarrow> string \<Rightarrow> raw_match list \<Rightarrow> correspondence list
     \<Rightarrow> error + correspondence list" where
  "process_matches a t pid gid [] samples = Inr samples"
| "process_matches a t pid gid (m # ms) samples =
     (if match_quality m = - 1 then process_matches a t pid gid ms samples
      else case tile_from_tile a t (position m) of
             Inl e \<Rightarrow> Inl e
           | Inr None \<Rightarrow> process_matches a t pid gid ms samples
           | Inr (Some neighbor) \<Rightarrow>
               process_matches a t pid gid ms (samples @ [sample pid gid m neighbor]))"

text \<open>The loop \<open>for index, tile in enumerate(data)\<close>, threading \<open>samples\<close> and
  \<open>tilespecs\<close>.\<close>

fun process_tiles ::
  "args \<Rightarrow> string \<Rightarrow> tile list \<Rightarrow> correspondence list \<times> tilespec list
     \<Rightarrow> error + correspondence list \<times> tilespec list" where
  "process_tiles a gid [] acc = Inr acc"
| "process_tiles a gid (t # ts) (samples, tilespecs) =
     (let pid = str_replace ''.tif'' '''' (img_path t);
          spec = \<lparr>tileId = pid, xstage = fst (stage_pos (img_meta t)),
                   ystage = snd (stage_pos (img_meta t))\<rparr>;
          tilespecs' = tilespecs @ [spec]
      in case matcher t of
           None \<Rightarrow> process_tiles a gid ts (samples, tilespecs')
         | Some ms \<Rightarrow>
             (case process_matches a t pid gid ms samples of
                Inl e \<Rightarrow> Inl e
              | Inr samples' \<Rightarrow> process_tiles a gid ts (samples', tilespecs')))"

text \<open>\<open>process\<close> from the parsed metafile on: \<open>Inl\<close> is an exception raised before the
  output file is opened, \<open>Inr doc\<close> the document handed to \<open>json.dump\<close>.\<close>

definition process :: "metadata \<Rightarrow> tile list \<Rightarrow> error + document" where
  "process md data =
     (case py_max (map (\<lambda>t. snd (raster_pos (img_meta t))) data) of
        Inl e \<Rightarrow> Inl e
      | Inr rows \<Rightarrow>
     (case py_max (map (\<lambda>t. fst (raster_pos (img_meta t))) data) of
        Inl e \<Rightarrow> Inl e
      | Inr cols \<Rightarrow>
     (let a = \<lparr>raster_pos_lookup = create_raster_pos_dict data, trows = rows, tcols = cols\<rparr>
      in case process_tiles a (session_id md) data ([], []) of
           Inl e \<Rightarrow> Inl e
         | Inr (samples, tilespecs) \<Rightarrow>
             (let output = Rich samples
                    \<lparr>nm_per_pix = nm_per_pix (calibration_highmag md),
                     angle = angle (calibration_highmag md)\<rparr> tilespecs;
                  output = Flat samples
              in Inr output))))"

subsection \<open>Example metafiles\<close>

text \<open>Small inputs on which the theorems below are instantiated: a dense one-row grid, a
  row with a gap, a match record with coordinate arrays of different lengths, a match with
  the unused direction code, a match with a null position, and paths where \<open>.tif\<close> is not only the extension.\<close>

definition example_metadata :: metadata where
  "example_metadata =
     \<lparr>temca_id = ''temca_1'', session_id = ''session_7'', specimen_id = ''specimen_3'',
      tape_id = None, calibration_highmag = \<lparr>nm_per_pix = 4, angle = 0\<rparr>\<rparr>"

definition match_right_3 :: raw_match where
  "match_right_3 =
     \<lparr>position = Some (Edge_value RIGHT), match_quality = 1 / 2,
      pX = [1, 2, 3], pY = [4, 5, 6], qX = [7, 8, 9], qY = [10, 11, 12]\<rparr>"

definition match_left_2 :: raw_match where
  "match_left_2 =
     \<lparr>position = Some (Edge_value LEFT), match_quality = 1 / 4,
      pX = [1, 2], pY = [3, 4], qX = [5, 6], qY = [7, 8]\<rparr>"

definition match_sentinel :: raw_match where
  "match_sentinel =
     \<lparr>position = Some (Edge_value RIGHT), match_quality = - 1,
      pX = [1], pY = [2], qX = [3], qY = [4]\<rparr>"

definition match_ragged :: raw_match where
  "match_ragged =
     \<lparr>position = Some (Edge_value RIGHT), match_quality = 1 / 2,
      pX = [1], pY = [1, 2], qX = [3], qY = [4]\<rparr>"

definition match_center :: raw_match where
  "match_center =
     \<lparr>position = Some (Edge_value CENTER), match_quality = 1 / 2,
      pX = [1], pY = [2], qX = [3], qY = [4]\<rparr>"

definition tile_001 :: tile where
  "tile_001 =
     \<lparr>img_path = ''tile_001.tif'', img_meta = \<lparr>raster_pos = (0, 0), stage_pos = (0, 0)\<rparr>,
      matcher = Some [match_right_3, match_sentinel]\<rparr>"

definition tile_002 :: tile where
  "tile_002 =
     \<lparr>img_path = ''tile_002.tif'', img_meta = \<lparr>raster_pos = (1, 0), stage_pos = (100, 0)\<rparr>,
      matcher = Some [match_right_3, match_left_2]\<rparr>"

definition tile_003 :: tile where
  "tile_003 =
     \<lparr>img_path = ''tile_003.tif'', img_meta = \<lparr>raster_pos = (2, 0), stage_pos = (200, 0)\<rparr>,
      matcher = Some [match_left_2]\<rparr>"

definition tile_ragged :: tile where
  "tile_ragged =
     \<lparr>img_path = ''tile_004.tif'', img_meta = \<lparr>raster_pos = (0, 0), stage_pos = (0, 0)\<rparr>,
      matcher = Some [match_ragged]\<rparr>"

definition tile_center :: tile where
  "tile_center =
     \<lparr>img_path = ''tile_005.tif'', img_meta = \<lparr>raster_pos = (0, 0), stage_pos = (0, 0)\<rparr>,
      matcher = Some [match_center]\<rparr>"

definition tile_double_ext :: tile where
  "tile_double_ext =
     \<lparr>img_path = ''scan.tif.tif'', img_meta = \<lparr>raster_pos = (0, 0), stage_pos = (0, 0)\<rparr>,
      matcher = Some [match_right_3]\<rparr>"

definition tile_tiff :: tile where
  "tile_tiff =
     \<lparr>img_path = ''tile.tiff'', img_meta = \<lparr>raster_pos = (1, 0), stage_pos = (100, 0)\<rparr>,
      matcher = None\<rparr>"

definition match_null :: raw_match where
  "match_null =
     \<lparr>position = None, match_quality = 1 / 2,
      pX = [1], pY = [2], qX = [3], qY = [4]\<rparr>"

definition tile_null :: tile where
  "tile_null =
     \<lparr>img_path = ''tile_006.tif'', img_meta = \<lparr>raster_pos = (0, 0), stage_pos = (0, 0)\<rparr>,
      matcher = Some [match_null]\<rparr>"

definition dense_args :: args where
  "dense_args =
     \<lparr>raster_pos_lookup = create_raster_pos_dict [tile_001, tile_002], trows = 0, tcols = 1\<rparr>"

section \<open>Properties\<close>

subsection \<open>Decimal printing and the dictionary key\<close>

text \<open>\<open>str\<close> is injective on ints and prints no underscore, so two raster positions get
  the same dictionary key only when they are the same position.\<close>

lemma digit_char_code: "d < 10 \<Longrightarrow> (of_char (digit_char d) :: nat) = 48 + d"
  by (simp add: digit_char_def)

lemma digit_char_inj: "d < 10 \<Longrightarrow> e < 10 \<Longrightarrow> digit_char d = digit_char e \<Longrightarrow> d = e"
proof -
  assume d: "d < 10" and e: "e < 10" and eq: "digit_char d = digit_char e"
  from eq have "(of_char (digit_char d) :: nat) = of_char (digit_char e)" by simp
  with d e show "d = e" by (simp add: digit_char_code)
qed

lemma digit_char_not_sep: "d < 10 \<Longrightarrow> digit_char d \<noteq> CHR ''_'' \<and> digit_char d \<noteq> CHR ''-''"
proof -
  assume d: "d < 10"
  have "(of_char (digit_char d) :: nat) \<noteq> of_char CHR ''_''"
    using d by (simp add: digit_char_code)
  moreover have "(of_char (digit_char d) :: nat) \<noteq> of_char CHR ''-''"
    using d by (simp add: digit_char_code)
  ultimately show ?thesis by auto
qed

lemma str_nat_small: "n < 10 \<Longrightarrow> str_nat n = [digit_char n]"
  by (rule trans [OF str_nat.simps]) simp

lemma str_nat_large: "\<not> n < 10 \<Longrightarrow> str_nat n = str_nat (n div 10) @ [digit_char (n mod 10)]"
  by (rule trans [OF str_nat.simps]) simp

lemma str_nat_not_Nil: "str_nat n \<noteq> []"
proof (cases "n < 10")
  case True
  show ?thesis unfolding str_nat_small [OF True] by simp
next
  case False
  show ?thesis unfolding str_nat_large [OF False] by simp
qed

lemma str_nat_chars: "c \<in> set (str_nat n) \<Longrightarrow> c \<noteq> CHR ''_'' \<and> c \<noteq> CHR ''-''"
proof (induction n rule: str_nat.induct)
  case (1 n)
  show ?case
  proof (cases "n < 10")
    case True
    from "1.prems" have "c \<in> set [digit_char n]" unfolding str_nat_small [OF True] .
    then have "c = digit_char n" by simp
    then show ?thesis using digit_char_not_sep [OF True] by simp
  next
    case False
    from "1.prems" have "c \<in> set (str_nat (n div 10) @ [digit_char (n mod 10)])"
      unfolding str_nat_large [OF False] .
    then have "c \<in> set (str_nat (n div 10)) \<or> c = digit_char (n mod 10)"
      by (simp only: set_append set_simps Un_iff insert_iff empty_iff) blast
    then show ?thesis
    proof
      assume "c \<in> set (str_nat (n div 10))"
      then show ?thesis by (rule "1.IH" [OF False])
    next
      assume c: "c = digit_char (n mod 10)"
      have "n mod 10 < 10" by simp
      then show ?thesis unfolding c by (rule digit_char_not_sep)
    qed
  qed
qed

lemma str_nat_inj: "str_nat n = str_nat m \<Longrightarrow> n = m"
proof (induction n arbitrary: m rule: str_nat.induct)
  case (1 n)
  show ?case
  proof (cases "n < 10")
    case n: True
    show ?thesis
    proof (cases "m < 10")
      case True
      from "1.prems" have "[digit_char n] = [digit_char m]"
        unfolding str_nat_small [OF n] str_nat_small [OF True] .
      then have "digit_char n = digit_char m" by (simp only: list.inject)
      with n True show ?thesis by (rule digit_char_inj)
    next
      case False
      from "1.prems" have "[] @ [digit_char n] = str_nat (m div 10) @ [digit_char (m mod 10)]"
        unfolding str_nat_small [OF n] str_nat_large [OF False] append_Nil .
      then have "[] = str_nat (m div 10)" by (simp only: append1_eq_conv)
      then show ?thesis using str_nat_not_Nil [of "m div 10"] by (simp only:)
    qed
  next
    case n: False
    show ?thesis
    proof (cases "m < 10")
      case True
      from "1.prems" have "str_nat (n div 10) @ [digit_char (n mod 10)] = [] @ [digit_char m]"
        unfolding str_nat_large [OF n] str_nat_small [OF True] append_Nil .
      then have "str_nat (n div 10) = []" by (simp only: append1_eq_conv)
      then show ?thesis using str_nat_not_Nil [of "n div 10"] by (simp only:)
    next
      case False
      from "1.prems" have eq: "str_nat (n div 10) @ [digit_char (n mod 10)]
          = str_nat (m div 10) @ [digit_char (m mod 10)]"
        unfolding str_nat_large [OF n] str_nat_large [OF False] .
      then have eq': "str_nat (n div 10) = str_nat (m div 10) \<and> digit_char (n mod 10) = digit_char (m mod 10)"
        by (simp only: append1_eq_conv)
      from eq' have q: "n div 10 = m div 10" using "1.IH" [OF n] by blast
      have "n mod 10 < 10" "m mod 10 < 10" by simp_all
      with eq' have r: "n mod 10 = m mod 10" using digit_char_inj by blast
      have "n = 10 * (n div 10) + n mod 10" by simp
      also have "\<dots> = 10 * (m div 10) + m mod 10" by (simp only: q r)
      also have "\<dots> = m" by simp
      finally show ?thesis .
    qed
  qed
qed

lemma str_int_no_sep: "CHR ''_'' \<notin> set (str_int i)"
proof
  assume "CHR ''_'' \<in> set (str_int i)"
  then have "CHR ''_'' \<in> set (str_nat (nat (- i))) \<or> CHR ''_'' \<in> set (str_nat (nat i))"
    by (simp add: str_int_def split: if_splits)
  then show False using str_nat_chars by blast
qed

lemma str_nat_hd: "str_nat k \<noteq> CHR ''-'' # s"
proof
  assume "str_nat k = CHR ''-'' # s"
  then have "CHR ''-'' \<in> set (str_nat k)" by simp
  then show False using str_nat_chars by blast
qed

lemma str_int_inj: "str_int i = str_int j \<Longrightarrow> i = j"
proof -
  assume eq: "str_int i = str_int j"
  show "i = j"
  proof (cases "i < 0")
    case i: True
    show ?thesis
    proof (cases "j < 0")
      case True
      with i eq have "str_nat (nat (- i)) = str_nat (nat (- j))" by (simp add: str_int_def)
      then have "nat (- i) = nat (- j)" by (rule str_nat_inj)
      with i True show ?thesis by simp
    next
      case False
      with i eq have "str_nat (nat j) = CHR ''-'' # str_nat (nat (- i))" by (simp add: str_int_def)
      then show ?thesis using str_nat_hd by blast
    qed
  next
    case i: False
    show ?thesis
    proof (cases "j < 0")
      case True
      with i eq have "str_nat (nat i) = CHR ''-'' # str_nat (nat (- j))" by (simp add: str_int_def)
      then show ?thesis using str_nat_hd by blast
    next
      case False
      with i eq have "str_nat (nat i) = str_nat (nat j)" by (simp add: str_int_def)
      then have "nat i = nat j" by (rule str_nat_inj)
      with i False show ?thesis by simp
    qed
  qed
qed

lemma raster_key_inj: "raster_key c r = raster_key c' r' \<longleftrightarrow> c = c' \<and> r = r'"
proof
  assume "raster_key c r = raster_key c' r'"
  then have "str_int c @ CHR ''_'' # str_int r = str_int c' @ CHR ''_'' # str_int r'"
    by (simp add: raster_key_def)
  then have "str_int c = str_int c' \<and> str_int r = str_int r'"
    using append_Cons_eq_iff [of "CHR ''_''" "str_int c" "str_int r" "str_int c'" "str_int r'"]
      str_int_no_sep [of c] str_int_no_sep [of r]
    by blast
  then show "c = c' \<and> r = r'" using str_int_inj by blast
next
  assume "c = c' \<and> r = r'"
  then show "raster_key c r = raster_key c' r'" by simp
qed

lemma getitem_Some: "d k = Some v \<Longrightarrow> getitem d k = Inr v"
  by (simp add: getitem_def)

lemma getitem_None: "d k = None \<Longrightarrow> getitem d k = Inl KeyError"
  by (simp add: getitem_def)

lemma create_raster_pos_dict_loop_lookup:
  "create_raster_pos_dict_loop ts d (raster_key c r) =
     (case filter (\<lambda>t. raster_pos (img_meta t) = (c, r)) ts of
        [] \<Rightarrow> d (raster_key c r)
      | u # us \<Rightarrow> Some (last (u # us)))"
proof (induction ts arbitrary: d)
  case Nil
  show ?case by simp
next
  case (Cons t ts)
  obtain c' r' where rp: "raster_pos (img_meta t) = (c', r')" by (cases "raster_pos (img_meta t)")
  show ?case
  proof (cases "(c', r') = (c, r)")
    case True
    then show ?thesis using rp by (simp add: Cons.IH split: list.splits)
  next
    case False
    then have "raster_key c' r' \<noteq> raster_key c r" using raster_key_inj by blast
    with False show ?thesis using rp by (simp add: Cons.IH split: list.splits)
  qed
qed

lemma create_raster_pos_dict_lookup:
  "create_raster_pos_dict data (raster_key c r) =
     (case filter (\<lambda>t. raster_pos (img_meta t) = (c, r)) data of
        [] \<Rightarrow> None
      | u # us \<Rightarrow> Some (last (u # us)))"
  by (simp add: create_raster_pos_dict_def create_raster_pos_dict_loop_lookup)

lemma create_raster_pos_dict_gap:
  "\<forall>u \<in> set data. raster_pos (img_meta u) \<noteq> (c, r) \<Longrightarrow>
     create_raster_pos_dict data (raster_key c r) = None"
proof -
  assume "\<forall>u \<in> set data. raster_pos (img_meta u) \<noteq> (c, r)"
  then have "filter (\<lambda>t. raster_pos (img_meta t) = (c, r)) data = []"
    by (simp add: filter_empty_conv)
  then show ?thesis by (simp add: create_raster_pos_dict_lookup)
qed

lemma create_raster_pos_dict_occupied:
  "u \<in> set data \<Longrightarrow> raster_pos (img_meta u) = (c, r) \<Longrightarrow>
     create_raster_pos_dict data (raster_key c r) =
       Some (last (filter (\<lambda>t. raster_pos (img_meta t) = (c, r)) data))"
proof -
  assume "u \<in> set data" and "raster_pos (img_meta u) = (c, r)"
  then have "filter (\<lambda>t. raster_pos (img_meta t) = (c, r)) data \<noteq> []"
    by (auto simp: filter_empty_conv)
  then show ?thesis by (simp add: create_raster_pos_dict_lookup split: list.splits)
qed

lemma py_max_Max: "py_max (x # xs) = Inr (Max (set (x # xs)))"
  by (simp only: py_max.simps Max.set_eq_fold)


subsection \<open>Errors and provenance in the extractor loops\<close>

lemma tile_from_raster_pos_error: "tile_from_raster_pos a col row d = Inl e \<Longrightarrow> e = KeyError"
  by (auto simp: tile_from_raster_pos_def getitem_def split: option.splits if_splits)

lemma tile_from_tile_error: "tile_from_tile a t d = Inl e \<Longrightarrow> e = KeyError"
  by (auto simp: tile_from_tile_def split: prod.splits dest: tile_from_raster_pos_error)

lemma tile_from_raster_pos_lookup:
  "tile_from_raster_pos a col row d = Inr (Some n) \<Longrightarrow> \<exists>k. raster_pos_lookup a k = Some n"
  by (auto simp: tile_from_raster_pos_def getitem_def split: option.splits if_splits)

lemma process_matches_error: "process_matches a t pid gid ms s = Inl e \<Longrightarrow> e = KeyError"
proof (induction ms arbitrary: s)
  case Nil
  then show ?case by simp
next
  case (Cons m ms)
  then show ?case
    by (auto split: if_splits sum.splits option.splits dest: tile_from_tile_error)
qed

lemma process_matches_raises:
  "m \<in> set ms \<Longrightarrow> match_quality m \<noteq> - 1 \<Longrightarrow> tile_from_tile a t (position m) = Inl KeyError
     \<Longrightarrow> process_matches a t pid gid ms s = Inl KeyError"
proof (induction ms arbitrary: s)
  case Nil
  then show ?case by simp
next
  case (Cons m' ms)
  show ?case
  proof (cases "m' = m")
    case True
    with Cons.prems show ?thesis by simp
  next
    case False
    with Cons.prems have "m \<in> set ms" by simp
    then have ih: "process_matches a t pid gid ms s' = Inl KeyError" for s'
      using Cons.IH Cons.prems by blast
    show ?thesis
      by (auto simp: ih split: sum.splits option.splits dest: tile_from_tile_error)
  qed
qed

lemma process_tiles_error: "process_tiles a gid ts acc = Inl e \<Longrightarrow> e = KeyError"
proof (induction ts arbitrary: acc)
  case Nil
  then show ?case by simp
next
  case (Cons t ts)
  obtain s sp where acc: "acc = (s, sp)" by (cases acc)
  from Cons.prems show ?case unfolding acc
    by (auto simp: Let_def split: option.splits sum.splits
        dest: process_matches_error Cons.IH)
qed

lemma process_tiles_raises:
  "t \<in> set ts \<Longrightarrow> matcher t = Some ms
     \<Longrightarrow> (\<And>s. process_matches a t (str_replace ''.tif'' '''' (img_path t)) gid ms s = Inl KeyError)
     \<Longrightarrow> process_tiles a gid ts acc = Inl KeyError"
proof (induction ts arbitrary: acc)
  case Nil
  then show ?case by simp
next
  case (Cons t' ts)
  obtain s sp where acc: "acc = (s, sp)" by (cases acc)
  show ?case
  proof (cases "t' = t")
    case True
    with Cons.prems show ?thesis unfolding acc by (simp add: Let_def)
  next
    case False
    with Cons.prems have "t \<in> set ts" by simp
    then have ih: "process_tiles a gid ts acc' = Inl KeyError" for acc'
      using Cons.IH Cons.prems by blast
    show ?thesis unfolding acc
      by (auto simp: ih Let_def split: option.splits sum.splits dest: process_matches_error)
  qed
qed

lemma process_matches_provenance:
  "process_matches a t pid gid ms s = Inr s' \<Longrightarrow> c \<in> set s' \<Longrightarrow>
     c \<in> set s \<or> (\<exists>m \<in> set ms. \<exists>n. match_quality m \<noteq> - 1
        \<and> tile_from_tile a t (position m) = Inr (Some n) \<and> c = sample pid gid m n)"
proof (induction ms arbitrary: s)
  case Nil
  then show ?case by simp
next
  case (Cons m ms)
  show ?case
  proof (cases "match_quality m = - 1")
    case True
    with Cons.prems have "process_matches a t pid gid ms s = Inr s'" by simp
    from Cons.IH [OF this Cons.prems(2)] show ?thesis by auto
  next
    case q: False
    show ?thesis
    proof (cases "tile_from_tile a t (position m)")
      case (Inl e)
      with q Cons.prems show ?thesis by simp
    next
      case (Inr r)
      show ?thesis
      proof (cases r)
        case None
        with q Inr Cons.prems have "process_matches a t pid gid ms s = Inr s'" by simp
        from Cons.IH [OF this Cons.prems(2)] show ?thesis by auto
      next
        case (Some n)
        with q Inr Cons.prems
        have "process_matches a t pid gid ms (s @ [sample pid gid m n]) = Inr s'" by simp
        from Cons.IH [OF this Cons.prems(2)] show ?thesis using q Inr Some by auto
      qed
    qed
  qed
qed

lemma process_tiles_provenance:
  "process_tiles a gid ts (s, sp) = Inr (s', sp') \<Longrightarrow> c \<in> set s' \<Longrightarrow>
     c \<in> set s \<or> (\<exists>t \<in> set ts. \<exists>ms. matcher t = Some ms \<and> (\<exists>m \<in> set ms. \<exists>n.
        match_quality m \<noteq> - 1 \<and> tile_from_tile a t (position m) = Inr (Some n)
        \<and> c = sample (str_replace ''.tif'' '''' (img_path t)) gid m n))"
proof (induction ts arbitrary: s sp)
  case Nil
  then show ?case by simp
next
  case (Cons t ts)
  let ?pid = "str_replace ''.tif'' '''' (img_path t)"
  show ?case
  proof (cases "matcher t")
    case None
    with Cons.prems obtain sp1 where "process_tiles a gid ts (s, sp1) = Inr (s', sp')"
      by (simp add: Let_def)
    from Cons.IH [OF this Cons.prems(2)] show ?thesis by auto
  next
    case (Some ms)
    show ?thesis
    proof (cases "process_matches a t ?pid gid ms s")
      case (Inl e)
      with Some Cons.prems show ?thesis by (simp add: Let_def)
    next
      case (Inr s1)
      with Some Cons.prems obtain sp1 where "process_tiles a gid ts (s1, sp1) = Inr (s', sp')"
        by (simp add: Let_def)
      from Cons.IH [OF this Cons.prems(2)]
      consider "c \<in> set s1" | "\<exists>t \<in> set ts. \<exists>ms. matcher t = Some ms \<and> (\<exists>m \<in> set ms. \<exists>n.
        match_quality m \<noteq> - 1 \<and> tile_from_tile a t (position m) = Inr (Some n)
        \<and> c = sample (str_replace ''.tif'' '''' (img_path t)) gid m n)" by blast
      then show ?thesis
      proof cases
        case 1
        from process_matches_provenance [OF Inr 1] show ?thesis using Some by auto
      next
        case 2
        then show ?thesis by auto
      qed
    qed
  qed
qed


subsection \<open>Empty input, grid boundaries, the written document\<close>

text \<open>C10. With an empty tile list the conversion raises while it computes the grid
  bounds, the maximum of an empty list, and so before the output file is opened: the
  result is the error and never a document.\<close>

theorem process_empty_data_raises: "process md [] = Inl ValueError"
  by (simp add: process_def)

text \<open>C7. At column 0 the direction LEFT resolves to none, at row 0 the direction TOP
  resolves to none, and the result of the resolver is determined by the lookup table, the
  column bound, the position and the direction alone.\<close>

theorem neighbor_none_at_boundary:
  "(fst (raster_pos (img_meta t)) = 0 \<longrightarrow> tile_from_tile a t (Some (Edge_value LEFT)) = Inr None)
   \<and> (snd (raster_pos (img_meta t)) = 0 \<longrightarrow> tile_from_tile a t (Some (Edge_value TOP)) = Inr None)
   \<and> (raster_pos_lookup a = raster_pos_lookup b \<and> tcols a = tcols b
        \<longrightarrow> tile_from_raster_pos a col row d = tile_from_raster_pos b col row d)"
proof (intro conjI impI)
  assume "fst (raster_pos (img_meta t)) = 0"
  then show "tile_from_tile a t (Some (Edge_value LEFT)) = Inr None"
    by (cases "raster_pos (img_meta t)") (simp add: tile_from_tile_def tile_from_raster_pos_def)
next
  assume "snd (raster_pos (img_meta t)) = 0"
  then show "tile_from_tile a t (Some (Edge_value TOP)) = Inr None"
    by (cases "raster_pos (img_meta t)") (simp add: tile_from_tile_def tile_from_raster_pos_def)
next
  assume "raster_pos_lookup a = raster_pos_lookup b \<and> tcols a = tcols b"
  then have "raster_pos_lookup a = raster_pos_lookup b" and "tcols a = tcols b"
    by simp_all
  then show "tile_from_raster_pos a col row d = tile_from_raster_pos b col row d"
    unfolding tile_from_raster_pos_def by (simp only:)
qed

theorem neighbor_none_at_boundary_witness:
  "fst (raster_pos (img_meta tile_001)) = 0 \<and> snd (raster_pos (img_meta tile_001)) = 0
   \<and> tile_from_tile dense_args tile_001 (Some (Edge_value LEFT)) = Inr None
   \<and> tile_from_tile dense_args tile_001 (Some (Edge_value TOP)) = Inr None
   \<and> raster_pos_lookup dense_args = raster_pos_lookup (dense_args\<lparr>trows := 5\<rparr>)
   \<and> tile_from_raster_pos dense_args 0 0 (Some (Edge_value RIGHT))
       = tile_from_raster_pos (dense_args\<lparr>trows := 5\<rparr>) 0 0 (Some (Edge_value RIGHT))"
  using neighbor_none_at_boundary
    [of tile_001 dense_args "dense_args\<lparr>trows := 5\<rparr>" 0 0 "Some (Edge_value RIGHT)"]
  by (simp add: tile_001_def)

text \<open>C9. When the conversion reaches the output file, the document written is the plain
  list of the correspondences accumulated over the tiles; the dictionary that also holds
  the calibration and the tilespecs is built and then replaced, and is never written.\<close>

theorem process_writes_flat_list:
  "process md data = Inr doc \<Longrightarrow>
     \<exists>rows cols samples tilespecs.
        py_max (map (\<lambda>t. snd (raster_pos (img_meta t))) data) = Inr rows
      \<and> py_max (map (\<lambda>t. fst (raster_pos (img_meta t))) data) = Inr cols
      \<and> process_tiles \<lparr>raster_pos_lookup = create_raster_pos_dict data, trows = rows,
            tcols = cols\<rparr> (session_id md) data ([], []) = Inr (samples, tilespecs)
      \<and> doc = Flat samples
      \<and> doc \<noteq> Rich samples \<lparr>nm_per_pix = nm_per_pix (calibration_highmag md),
            angle = angle (calibration_highmag md)\<rparr> tilespecs"
  by (auto simp: process_def Let_def split: sum.splits prod.splits)

theorem process_writes_flat_list_witness:
  "process example_metadata [tile_001, tile_002] =
     Inr (Flat [\<lparr>pId = ''tile_001'', qId = ''tile_002'', pGroupId = ''session_7'',
                 qGroupId = ''session_7'',
                 matches = \<lparr>p = [[1, 2, 3], [4, 5, 6]], q = [[7, 8, 9], [10, 11, 12]],
                            w = [1, 1, 1], match_count = 3\<rparr>\<rparr>,
                \<lparr>pId = ''tile_002'', qId = ''tile_001'', pGroupId = ''session_7'',
                 qGroupId = ''session_7'',
                 matches = \<lparr>p = [[1, 2], [3, 4]], q = [[5, 6], [7, 8]], w = [1, 1],
                            match_count = 2\<rparr>\<rparr>])
   \<and> (\<exists>samples. process example_metadata [tile_001, tile_002] = Inr (Flat samples))"
proof -
  have run: "process example_metadata [tile_001, tile_002] =
     Inr (Flat [\<lparr>pId = ''tile_001'', qId = ''tile_002'', pGroupId = ''session_7'',
                 qGroupId = ''session_7'',
                 matches = \<lparr>p = [[1, 2, 3], [4, 5, 6]], q = [[7, 8, 9], [10, 11, 12]],
                            w = [1, 1, 1], match_count = 3\<rparr>\<rparr>,
                \<lparr>pId = ''tile_002'', qId = ''tile_001'', pGroupId = ''session_7'',
                 qGroupId = ''session_7'',
                 matches = \<lparr>p = [[1, 2], [3, 4]], q = [[5, 6], [7, 8]], w = [1, 1],
                            match_count = 2\<rparr>\<rparr>])"
    by code_simp
  from process_writes_flat_list [OF run] have "\<exists>samples.
      process example_metadata [tile_001, tile_002] = Inr (Flat samples)"
    using run by blast
  with run show ?thesis by blast
qed


subsection \<open>Gaps in the grid\<close>

text \<open>C1, as the code has it. When the boundary check of LEFT, RIGHT or TOP passes but no
  tile occupies the target cell, the resolver does not return none: the dictionary lookup
  raises KeyError. A match with a quality other than -1 that points at such a gap makes
  the whole conversion fail with KeyError, so nothing is emitted and nothing is written.\<close>

theorem gap_raises_KeyError:
  assumes t: "t \<in> set data" and ms: "matcher t = Some ms" and m: "m \<in> set ms"
    and quality: "match_quality m \<noteq> - 1"
    and pos: "raster_pos (img_meta t) = (col, row)"
    and cols: "py_max (map (\<lambda>t. fst (raster_pos (img_meta t))) data) = Inr cols"
    and dir: "(position m = Some (Edge_value LEFT) \<and> 0 < col \<and> cell = (col - 1, row))
       \<or> (position m = Some (Edge_value RIGHT) \<and> col < cols \<and> cell = (col + 1, row))
       \<or> (position m = Some (Edge_value TOP) \<and> 0 < row \<and> cell = (col, row - 1))"
    and gap: "\<forall>u \<in> set data. raster_pos (img_meta u) \<noteq> cell"
  shows "tile_from_tile \<lparr>raster_pos_lookup = create_raster_pos_dict data, trows = rows,
            tcols = cols\<rparr> t (position m) = Inl KeyError
         \<and> process md data = Inl KeyError"
proof -
  have none: "create_raster_pos_dict data (raster_key (fst cell) (snd cell)) = None"
    using gap create_raster_pos_dict_gap [of data "fst cell" "snd cell"] by simp
  have resolve: "tile_from_tile \<lparr>raster_pos_lookup = create_raster_pos_dict data, trows = r,
      tcols = cols\<rparr> t (position m) = Inl KeyError" for r
    using dir none pos
    by (auto simp: tile_from_tile_def tile_from_raster_pos_def getitem_def)
  obtain x xs where data: "data = x # xs" using t by (cases data) auto
  obtain r where rows': "py_max (map (\<lambda>t. snd (raster_pos (img_meta t))) data) = Inr r"
    unfolding data by simp
  have "process_matches \<lparr>raster_pos_lookup = create_raster_pos_dict data, trows = r,
      tcols = cols\<rparr> t (str_replace ''.tif'' '''' (img_path t)) (session_id md) ms s
        = Inl KeyError" for s
    using m quality resolve by (rule process_matches_raises)
  with t ms have "process_tiles \<lparr>raster_pos_lookup = create_raster_pos_dict data, trows = r,
      tcols = cols\<rparr> (session_id md) data ([], []) = Inl KeyError"
    by (rule process_tiles_raises)
  then have "process md data = Inl KeyError"
    by (simp add: process_def rows' cols)
  with resolve show ?thesis by simp
qed

theorem gap_raises_KeyError_witness:
  "tile_003 \<in> set [tile_001, tile_003] \<and> matcher tile_003 = Some [match_left_2]
   \<and> match_left_2 \<in> set [match_left_2] \<and> match_quality match_left_2 \<noteq> - 1
   \<and> raster_pos (img_meta tile_003) = (2, 0)
   \<and> py_max (map (\<lambda>t. fst (raster_pos (img_meta t))) [tile_001, tile_003]) = Inr 2
   \<and> position match_left_2 = Some (Edge_value LEFT)
   \<and> raster_pos (img_meta tile_001) \<noteq> (1, 0) \<and> raster_pos (img_meta tile_003) \<noteq> (1, 0)
   \<and> tile_from_tile \<lparr>raster_pos_lookup = create_raster_pos_dict [tile_001, tile_003],
        trows = 0, tcols = 2\<rparr> tile_003 (position match_left_2) = Inl KeyError
   \<and> process example_metadata [tile_001, tile_003] = Inl KeyError"
proof -
  have h: "tile_003 \<in> set [tile_001, tile_003]" "matcher tile_003 = Some [match_left_2]"
    "match_left_2 \<in> set [match_left_2]" "match_quality match_left_2 \<noteq> - 1"
    "raster_pos (img_meta tile_003) = (2, 0)"
    "py_max (map (\<lambda>t. fst (raster_pos (img_meta t))) [tile_001, tile_003]) = Inr 2"
    "position match_left_2 = Some (Edge_value LEFT)"
    "\<forall>u \<in> set [tile_001, tile_003]. raster_pos (img_meta u) \<noteq> (1, 0)"
    by (simp_all add: tile_001_def tile_003_def match_left_2_def)
  from h(7) have dir: "(position match_left_2 = Some (Edge_value LEFT) \<and> (0::int) < 2
        \<and> (1::int, 0::int) = (2 - 1, 0))
     \<or> (position match_left_2 = Some (Edge_value RIGHT) \<and> (2::int) < 2
        \<and> (1::int, 0::int) = (2 + 1, 0))
     \<or> (position match_left_2 = Some (Edge_value TOP) \<and> (0::int) < 0
        \<and> (1::int, 0::int) = (2, 0 - 1))"
    by simp
  from gap_raises_KeyError [OF h(1) h(2) h(3) h(4) h(5) h(6) dir h(8),
      of 0 example_metadata] h
  show ?thesis by simp
qed

theorem gap_counterexample:
  "tile_from_tile \<lparr>raster_pos_lookup = create_raster_pos_dict [tile_001, tile_003],
        trows = 0, tcols = 2\<rparr> tile_003 (Some (Edge_value LEFT)) = Inl KeyError
   \<and> process example_metadata [tile_001, tile_003] = Inl KeyError"
  by code_simp

subsection \<open>String replacement and the origin of emitted records\<close>

lemma str_replace_Nil: "old \<noteq> [] \<Longrightarrow> str_replace old new [] = []"
  by (rule trans [OF str_replace.simps]) simp

lemma str_replace_prefix:
  "old \<noteq> [] \<Longrightarrow> prefix old s \<Longrightarrow>
     str_replace old new s = new @ str_replace old new (drop (length old) s)"
  by (rule trans [OF str_replace.simps]) auto

lemma str_replace_Cons:
  "old \<noteq> [] \<Longrightarrow> \<not> prefix old (c # cs) \<Longrightarrow>
     str_replace old new (c # cs) = c # str_replace old new cs"
  by (rule trans [OF str_replace.simps]) simp

lemma str_replace_tif_Nil: "str_replace ''.tif'' '''' [] = []"
  by (rule str_replace_Nil) simp

lemma str_replace_tif_Cons:
  "\<not> prefix ''.tif'' (c # cs) \<Longrightarrow>
     str_replace ''.tif'' '''' (c # cs) = c # str_replace ''.tif'' '''' cs"
  by (rule str_replace_Cons) simp_all

lemma str_replace_tif_absent:
  "\<not> (\<exists>u v. s = u @ ''.tif'' @ v) \<Longrightarrow> str_replace ''.tif'' '''' s = s"
proof (induction s)
  case Nil
  show ?case by (rule str_replace_tif_Nil)
next
  case (Cons c cs)
  have "\<not> prefix ''.tif'' (c # cs)"
  proof
    assume "prefix ''.tif'' (c # cs)"
    then obtain v where "c # cs = ''.tif'' @ v" by (auto simp: prefix_def)
    then have "c # cs = [] @ ''.tif'' @ v" by simp
    with Cons.prems show False by blast
  qed
  then have step: "str_replace ''.tif'' '''' (c # cs) = c # str_replace ''.tif'' '''' cs"
    by (rule str_replace_tif_Cons)
  have "\<not> (\<exists>u v. cs = u @ ''.tif'' @ v)"
  proof
    assume "\<exists>u v. cs = u @ ''.tif'' @ v"
    then obtain u v where "cs = u @ ''.tif'' @ v" by blast
    then have "c # cs = (c # u) @ ''.tif'' @ v" by simp
    with Cons.prems show False by blast
  qed
  then have "str_replace ''.tif'' '''' cs = cs" by (rule Cons.IH)
  with step show ?case by simp
qed

lemma tif_overlap: "''.tif'' = (c # cs) @ us \<Longrightarrow> prefix us ''.tif'' \<Longrightarrow> us = []"
  by (auto simp: Cons_eq_append_conv append_eq_Cons_conv prefix_Cons)

lemma str_replace_tif_suffix:
  "\<not> (\<exists>u v. b = u @ ''.tif'' @ v) \<Longrightarrow> str_replace ''.tif'' '''' (b @ ''.tif'') = b"
proof (induction b)
  case Nil
  have "str_replace ''.tif'' '''' ''.tif''
      = '''' @ str_replace ''.tif'' '''' (drop (length ''.tif'') ''.tif'')"
    by (rule str_replace_prefix) simp_all
  then show ?case by (simp add: str_replace_tif_Nil)
next
  case (Cons c cs)
  have "\<not> prefix ''.tif'' ((c # cs) @ ''.tif'')"
  proof
    assume "prefix ''.tif'' ((c # cs) @ ''.tif'')"
    then consider "prefix ''.tif'' (c # cs)"
      | us where "''.tif'' = (c # cs) @ us" "prefix us ''.tif''"
      unfolding prefix_append by blast
    then show False
    proof cases
      case 1
      then obtain v where "c # cs = [] @ ''.tif'' @ v" by (auto simp: prefix_def)
      with Cons.prems show False by blast
    next
      case 2
      then have "us = []" by (rule tif_overlap)
      with 2 have "c # cs = [] @ ''.tif'' @ []" by simp
      with Cons.prems show False by blast
    qed
  qed
  then have step: "str_replace ''.tif'' '''' (c # cs @ ''.tif'')
      = c # str_replace ''.tif'' '''' (cs @ ''.tif'')"
    using str_replace_tif_Cons [of c "cs @ ''.tif''"] by simp
  have "\<not> (\<exists>u v. cs = u @ ''.tif'' @ v)"
  proof
    assume "\<exists>u v. cs = u @ ''.tif'' @ v"
    then obtain u v where "cs = u @ ''.tif'' @ v" by blast
    then have "c # cs = (c # u) @ ''.tif'' @ v" by simp
    with Cons.prems show False by blast
  qed
  then have "str_replace ''.tif'' '''' (cs @ ''.tif'') = cs" by (rule Cons.IH)
  with step show ?case by simp
qed

lemma create_raster_pos_dict_loop_range:
  "create_raster_pos_dict_loop ts d k = Some n \<Longrightarrow> n \<in> set ts \<or> d k = Some n"
proof (induction ts arbitrary: d)
  case Nil
  then show ?case by simp
next
  case (Cons t ts)
  obtain c r where rp: "raster_pos (img_meta t) = (c, r)" by (cases "raster_pos (img_meta t)")
  from Cons.prems have "create_raster_pos_dict_loop ts (d(raster_key c r \<mapsto> t)) k = Some n"
    by (simp add: rp)
  from Cons.IH [OF this] show ?case by (auto split: if_splits)
qed

lemma create_raster_pos_dict_range:
  "create_raster_pos_dict data k = Some n \<Longrightarrow> n \<in> set data"
  using create_raster_pos_dict_loop_range [of data Map.empty k n]
  by (simp add: create_raster_pos_dict_def)

lemma process_provenance:
  assumes run: "process md data = Inr (Flat samples)" and c: "c \<in> set samples"
  shows "\<exists>t \<in> set data. \<exists>ms. matcher t = Some ms \<and> (\<exists>m \<in> set ms. \<exists>n \<in> set data.
           match_quality m \<noteq> - 1
           \<and> c = sample (str_replace ''.tif'' '''' (img_path t)) (session_id md) m n)"
proof -
  from run obtain rows cols tilespecs where
    tiles: "process_tiles \<lparr>raster_pos_lookup = create_raster_pos_dict data, trows = rows,
      tcols = cols\<rparr> (session_id md) data ([], []) = Inr (samples, tilespecs)"
    by (auto simp: process_def Let_def split: sum.splits prod.splits)
  let ?a = "\<lparr>raster_pos_lookup = create_raster_pos_dict data, trows = rows, tcols = cols\<rparr>"
  from process_tiles_provenance [OF tiles c]
  obtain t ms m n where found: "t \<in> set data" "matcher t = Some ms" "m \<in> set ms"
    "match_quality m \<noteq> - 1" "tile_from_tile ?a t (position m) = Inr (Some n)"
    "c = sample (str_replace ''.tif'' '''' (img_path t)) (session_id md) m n"
    by auto
  from found(5) obtain k where "create_raster_pos_dict data k = Some n"
    by (auto simp: tile_from_tile_def split: prod.splits dest: tile_from_raster_pos_lookup)
  then have "n \<in> set data" by (rule create_raster_pos_dict_range)
  with found show ?thesis by blast
qed


subsection \<open>Inputs that differ only in what the extractor ignores\<close>

lemma process_matches_skip:
  "match_quality m = - 1 \<Longrightarrow>
     process_matches a t pid gid (ms1 @ m # ms2) s = process_matches a t pid gid (ms1 @ ms2) s"
proof (induction ms1 arbitrary: s)
  case Nil
  then show ?case by simp
next
  case (Cons m1 ms1)
  then show ?case by (simp split: sum.splits option.splits)
qed

lemma sample_img_path: "img_path n = img_path n' \<Longrightarrow> sample pid gid m n = sample pid gid m n'"
  by (simp add: sample_def)

lemma create_raster_pos_dict_loop_sim:
  "map img_path ts = map img_path ts' \<Longrightarrow> map img_meta ts = map img_meta ts' \<Longrightarrow>
   (\<And>k. map_option img_path (d k) = map_option img_path (d' k)) \<Longrightarrow>
     map_option img_path (create_raster_pos_dict_loop ts d k)
       = map_option img_path (create_raster_pos_dict_loop ts' d' k)"
proof (induction ts arbitrary: ts' d d')
  case Nil
  then show ?case by simp
next
  case (Cons t ts)
  from Cons.prems(1) obtain t' us where ts': "ts' = t' # us" by (cases ts') auto
  with Cons.prems have eq: "img_path t = img_path t'" "img_meta t = img_meta t'"
    "map img_path ts = map img_path us" "map img_meta ts = map img_meta us"
    by simp_all
  obtain c r where rp: "raster_pos (img_meta t) = (c, r)" by (cases "raster_pos (img_meta t)")
  have upd: "map_option img_path ((d(raster_key c r \<mapsto> t)) j)
      = map_option img_path ((d'(raster_key c r \<mapsto> t')) j)" for j
    using Cons.prems(3) eq(1) by simp
  have "map_option img_path (create_raster_pos_dict_loop ts (d(raster_key c r \<mapsto> t)) k)
      = map_option img_path (create_raster_pos_dict_loop us (d'(raster_key c r \<mapsto> t')) k)"
    using eq(3) eq(4) by (rule Cons.IH) (rule upd)
  then show ?case
    using rp eq(2) by (simp add: ts')
qed

lemma tile_from_tile_sim:
  assumes "tcols a = tcols a'"
    and "\<And>k. map_option img_path (raster_pos_lookup a k)
               = map_option img_path (raster_pos_lookup a' k)"
    and "img_meta t = img_meta t'"
  shows "map_sum id (map_option img_path) (tile_from_tile a t d)
       = map_sum id (map_option img_path) (tile_from_tile a' t' d)"
proof -
  have "map_sum id (map_option img_path) (map_sum id Some (getitem (raster_pos_lookup a) k))
      = map_sum id (map_option img_path) (map_sum id Some (getitem (raster_pos_lookup a') k))"
    for k
    using assms(2) [of k]
    by (cases "raster_pos_lookup a k"; cases "raster_pos_lookup a' k") (simp_all add: getitem_def)
  then show ?thesis
    using assms(1) assms(3)
    by (simp add: tile_from_tile_def tile_from_raster_pos_def split: prod.splits option.splits)
qed

lemma process_matches_sim:
  assumes "tcols a = tcols a'"
    and "\<And>k. map_option img_path (raster_pos_lookup a k)
               = map_option img_path (raster_pos_lookup a' k)"
    and "img_meta t = img_meta t'"
  shows "process_matches a t pid gid ms s = process_matches a' t' pid gid ms s"
proof (induction ms arbitrary: s)
  case Nil
  show ?case by simp
next
  case (Cons m ms)
  have rel: "map_sum id (map_option img_path) (tile_from_tile a t (position m))
      = map_sum id (map_option img_path) (tile_from_tile a' t' (position m))"
    using assms by (rule tile_from_tile_sim)
  show ?case
  proof (cases "tile_from_tile a t (position m)")
    case (Inl e)
    with rel have "tile_from_tile a' t' (position m) = Inl e"
      by (cases "tile_from_tile a' t' (position m)") simp_all
    with Inl show ?thesis by (simp add: Cons.IH)
  next
    case (Inr r)
    with rel obtain r' where r': "tile_from_tile a' t' (position m) = Inr r'"
      "map_option img_path r = map_option img_path r'"
      by (cases "tile_from_tile a' t' (position m)") simp_all
    show ?thesis
    proof (cases r)
      case None
      with r' have "r' = None" by simp
      with Inr None r' show ?thesis by (simp add: Cons.IH)
    next
      case (Some n)
      with r' obtain n' where n': "r' = Some n'" "img_path n = img_path n'" by (cases r') auto
      from n'(2) have "sample pid gid m n = sample pid gid m n'" by (rule sample_img_path)
      with Inr Some r' n' show ?thesis by (simp add: Cons.IH)
    qed
  qed
qed

lemma process_tiles_sim:
  assumes "tcols a = tcols a'"
    and "\<And>k. map_option img_path (raster_pos_lookup a k)
               = map_option img_path (raster_pos_lookup a' k)"
  shows "process_tiles a gid ts acc = process_tiles a' gid ts acc"
proof (induction ts arbitrary: acc)
  case Nil
  show ?case by simp
next
  case (Cons t ts)
  obtain s sp where acc: "acc = (s, sp)" by (cases acc)
  have "process_matches a t pid gid ms s = process_matches a' t pid gid ms s" for pid ms
    using assms by (rule process_matches_sim) simp
  then show ?case unfolding acc
    by (simp add: Let_def Cons.IH split: option.splits sum.splits)
qed

lemma process_tiles_append:
  "process_tiles a gid (xs @ ys) acc =
     (case process_tiles a gid xs acc of Inl e \<Rightarrow> Inl e
      | Inr acc' \<Rightarrow> process_tiles a gid ys acc')"
proof (induction xs arbitrary: acc)
  case Nil
  show ?case by simp
next
  case (Cons t xs)
  obtain s sp where acc: "acc = (s, sp)" by (cases acc)
  show ?case unfolding acc
    by (simp add: Let_def Cons.IH split: option.splits sum.splits)
qed

text \<open>C5. A match whose quality is -1 is skipped before the resolver is called, whatever
  the resolver would return for it: the loop over a tile's matches, and with it the whole
  conversion, gives the same result, document or error, as on the input without that
  match.\<close>

theorem sentinel_match_skipped:
  assumes q: "match_quality m = - 1"
  shows "process_matches a t pid gid (ms1 @ m # ms2) s
           = process_matches a t pid gid (ms1 @ ms2) s
       \<and> process md (ts1 @ t\<lparr>matcher := Some (ms1 @ m # ms2)\<rparr> # ts2)
           = process md (ts1 @ t\<lparr>matcher := Some (ms1 @ ms2)\<rparr> # ts2)"
proof
  show "process_matches a t pid gid (ms1 @ m # ms2) s = process_matches a t pid gid (ms1 @ ms2) s"
    using q by (rule process_matches_skip)
next
  let ?t1 = "t\<lparr>matcher := Some (ms1 @ m # ms2)\<rparr>" and ?t2 = "t\<lparr>matcher := Some (ms1 @ ms2)\<rparr>"
  let ?d1 = "ts1 @ ?t1 # ts2" and ?d2 = "ts1 @ ?t2 # ts2"
  have paths: "map img_path ?d1 = map img_path ?d2" and metas: "map img_meta ?d1 = map img_meta ?d2"
    by simp_all
  have rows: "map (\<lambda>t. snd (raster_pos (img_meta t))) ?d1 = map (\<lambda>t. snd (raster_pos (img_meta t))) ?d2"
    and cols: "map (\<lambda>t. fst (raster_pos (img_meta t))) ?d1 = map (\<lambda>t. fst (raster_pos (img_meta t))) ?d2"
    by simp_all
  have sim: "map_option img_path (create_raster_pos_dict ?d1 k)
      = map_option img_path (create_raster_pos_dict ?d2 k)" for k
    unfolding create_raster_pos_dict_def
    using paths metas by (rule create_raster_pos_dict_loop_sim) simp
  have tiles: "process_tiles \<lparr>raster_pos_lookup = create_raster_pos_dict ?d1, trows = r, tcols = c\<rparr>
          gid ?d1 acc
      = process_tiles \<lparr>raster_pos_lookup = create_raster_pos_dict ?d2, trows = r, tcols = c\<rparr>
          gid ?d2 acc" for r c gid acc
  proof -
    let ?a1 = "\<lparr>raster_pos_lookup = create_raster_pos_dict ?d1, trows = r, tcols = c\<rparr>"
    let ?a2 = "\<lparr>raster_pos_lookup = create_raster_pos_dict ?d2, trows = r, tcols = c\<rparr>"
    have same: "process_tiles ?a1 gid ts acc' = process_tiles ?a2 gid ts acc'" for ts acc'
      by (rule process_tiles_sim) (simp_all add: sim)
    have "process_matches ?a1 ?t1 pid gid (ms1 @ m # ms2) s'
        = process_matches ?a1 ?t1 pid gid (ms1 @ ms2) s'" for pid s'
      using q by (rule process_matches_skip)
    also have "process_matches ?a1 ?t1 pid gid (ms1 @ ms2) s'
        = process_matches ?a2 ?t2 pid gid (ms1 @ ms2) s'" for pid s'
      by (rule process_matches_sim) (simp_all add: sim)
    finally have one: "process_matches ?a1 ?t1 pid gid (ms1 @ m # ms2) s'
        = process_matches ?a2 ?t2 pid gid (ms1 @ ms2) s'" for pid s' .
    have step: "process_tiles ?a1 gid (?t1 # ts2) acc' = process_tiles ?a2 gid (?t2 # ts2) acc'"
      for acc'
      by (cases acc') (simp add: Let_def one same cong: sum.case_cong)
    show ?thesis
      by (simp only: process_tiles_append same [of ts1] step cong: sum.case_cong)
  qed
  show "process md ?d1 = process md ?d2"
    unfolding process_def rows cols Let_def by (simp only: tiles cong: sum.case_cong)
qed

theorem sentinel_match_skipped_witness:
  "match_quality match_sentinel = - 1
   \<and> process_matches dense_args tile_001 ''tile_001'' ''session_7''
        [match_right_3, match_sentinel] []
       = process_matches dense_args tile_001 ''tile_001'' ''session_7'' [match_right_3] []
   \<and> process example_metadata [tile_001, tile_002]
       = process example_metadata [tile_001\<lparr>matcher := Some [match_right_3]\<rparr>, tile_002]"
proof -
  have q: "match_quality match_sentinel = - 1" by (simp add: match_sentinel_def)
  have t: "tile_001\<lparr>matcher := Some [match_right_3, match_sentinel]\<rparr> = tile_001"
    by (simp add: tile_001_def)
  note skipped = sentinel_match_skipped [OF q, of dense_args tile_001 "''tile_001''"
      "''session_7''" "[match_right_3]" "[]" "[]" example_metadata "[]" "[tile_002]",
      unfolded append_Cons append_Nil t]
  from skipped q show ?thesis by blast
qed


subsection \<open>Shapes of the emitted records\<close>




text \<open>C3, as the code has it. In every correspondence of the written list the weight
  array has the length of p.x and the match count is that length, whatever the input; p.y,
  q.x and q.y are the match record's arrays unchanged, so all five lengths agree when the
  arrays of every match record of the input have one length, and not otherwise.\<close>

theorem emitted_lengths:
  assumes "process md data = Inr (Flat samples)" and "c \<in> set samples"
  shows "length (w (matches c)) = length (p (matches c) ! 0)
       \<and> match_count (matches c) = length (p (matches c) ! 0)
       \<and> (\<exists>t \<in> set data. \<exists>ms. matcher t = Some ms \<and> (\<exists>m \<in> set ms.
             p (matches c) = [pX m, pY m] \<and> q (matches c) = [qX m, qY m]))
       \<and> ((\<forall>t \<in> set data. \<forall>ms. matcher t = Some ms \<longrightarrow> (\<forall>m \<in> set ms.
               length (pY m) = length (pX m) \<and> length (qX m) = length (pX m)
               \<and> length (qY m) = length (pX m)))
            \<longrightarrow> length (p (matches c) ! 1) = length (p (matches c) ! 0)
              \<and> length (q (matches c) ! 0) = length (p (matches c) ! 0)
              \<and> length (q (matches c) ! 1) = length (p (matches c) ! 0))"
proof -
  from process_provenance [OF assms]
  obtain t ms m n where found: "t \<in> set data" "matcher t = Some ms" "m \<in> set ms"
    "c = sample (str_replace ''.tif'' '''' (img_path t)) (session_id md) m n"
    by blast
  from found(4) have shape: "p (matches c) = [pX m, pY m]" "q (matches c) = [qX m, qY m]"
    "w (matches c) = replicate (length (pX m)) 1" "match_count (matches c) = length (pX m)"
    by (simp_all add: sample_def Let_def)
  have "\<exists>t \<in> set data. \<exists>ms. matcher t = Some ms \<and> (\<exists>m \<in> set ms.
      p (matches c) = [pX m, pY m] \<and> q (matches c) = [qX m, qY m])"
    using found(1-3) shape(1,2) by blast
  moreover have "length (w (matches c)) = length (p (matches c) ! 0)"
    "match_count (matches c) = length (p (matches c) ! 0)"
    by (simp_all add: shape)
  moreover have "length (p (matches c) ! 1) = length (p (matches c) ! 0)
      \<and> length (q (matches c) ! 0) = length (p (matches c) ! 0)
      \<and> length (q (matches c) ! 1) = length (p (matches c) ! 0)"
    if "\<forall>t \<in> set data. \<forall>ms. matcher t = Some ms \<longrightarrow> (\<forall>m \<in> set ms.
               length (pY m) = length (pX m) \<and> length (qX m) = length (pX m)
               \<and> length (qY m) = length (pX m))"
  proof -
    from that found(1-3) have "length (pY m) = length (pX m) \<and> length (qX m) = length (pX m)
               \<and> length (qY m) = length (pX m)" by blast
    then show ?thesis by (simp add: shape)
  qed
  ultimately show ?thesis by blast
qed

theorem emitted_lengths_witness:
  "process example_metadata [tile_001, tile_002] =
     Inr (Flat [sample ''tile_001'' ''session_7'' match_right_3 tile_002,
                sample ''tile_002'' ''session_7'' match_left_2 tile_001])
   \<and> sample ''tile_001'' ''session_7'' match_right_3 tile_002
       \<in> set [sample ''tile_001'' ''session_7'' match_right_3 tile_002,
               sample ''tile_002'' ''session_7'' match_left_2 tile_001]
   \<and> matcher tile_001 = Some [match_right_3, match_sentinel]
   \<and> matcher tile_002 = Some [match_right_3, match_left_2]
   \<and> map (\<lambda>m. (length (pX m), length (pY m), length (qX m), length (qY m)))
         [match_right_3, match_sentinel, match_left_2]
       = [(3, 3, 3, 3), (1, 1, 1, 1), (2, 2, 2, 2)]
   \<and> length (p (matches (sample ''tile_001'' ''session_7'' match_right_3 tile_002)) ! 0) = 3
   \<and> length (p (matches (sample ''tile_001'' ''session_7'' match_right_3 tile_002)) ! 1) = 3
   \<and> length (q (matches (sample ''tile_001'' ''session_7'' match_right_3 tile_002)) ! 0) = 3
   \<and> length (q (matches (sample ''tile_001'' ''session_7'' match_right_3 tile_002)) ! 1) = 3
   \<and> length (w (matches (sample ''tile_001'' ''session_7'' match_right_3 tile_002))) = 3
   \<and> match_count (matches (sample ''tile_001'' ''session_7'' match_right_3 tile_002)) = 3"
proof -
  let ?c = "sample ''tile_001'' ''session_7'' match_right_3 tile_002"
  let ?samples = "[?c, sample ''tile_002'' ''session_7'' match_left_2 tile_001]"
  have run: "process example_metadata [tile_001, tile_002] = Inr (Flat ?samples)"
    by code_simp
  have c: "?c \<in> set ?samples" by simp
  have shaped: "\<forall>t \<in> set [tile_001, tile_002]. \<forall>ms. matcher t = Some ms \<longrightarrow> (\<forall>m \<in> set ms.
         length (pY m) = length (pX m) \<and> length (qX m) = length (pX m)
         \<and> length (qY m) = length (pX m))"
    by (simp add: tile_001_def tile_002_def match_right_3_def match_left_2_def
        match_sentinel_def)
  have px: "length (p (matches ?c) ! 0) = 3"
    by (simp add: sample_def Let_def match_right_3_def)
  have given: "matcher tile_001 = Some [match_right_3, match_sentinel]"
    "matcher tile_002 = Some [match_right_3, match_left_2]"
    "map (\<lambda>m. (length (pX m), length (pY m), length (qX m), length (qY m)))
         [match_right_3, match_sentinel, match_left_2]
       = [(3, 3, 3, 3), (1, 1, 1, 1), (2, 2, 2, 2)]"
    by (simp_all add: tile_001_def tile_002_def match_right_3_def match_left_2_def
        match_sentinel_def)
  from emitted_lengths [OF run c] shaped px
  have "length (p (matches ?c) ! 1) = 3 \<and> length (q (matches ?c) ! 0) = 3
      \<and> length (q (matches ?c) ! 1) = 3 \<and> length (w (matches ?c)) = 3
      \<and> match_count (matches ?c) = 3"
    by simp
  with run c given px show ?thesis by blast
qed

theorem emitted_lengths_counterexample:
  "process example_metadata [tile_ragged, tile_002] =
     Inr (Flat [sample ''tile_004'' ''session_7'' match_ragged tile_002,
                sample ''tile_002'' ''session_7'' match_left_2 tile_ragged])
   \<and> length (p (matches (sample ''tile_004'' ''session_7'' match_ragged tile_002)) ! 0) = 1
   \<and> length (p (matches (sample ''tile_004'' ''session_7'' match_ragged tile_002)) ! 1) = 2
   \<and> match_count (matches (sample ''tile_004'' ''session_7'' match_ragged tile_002)) = 1"
  by code_simp

subsection \<open>What the written list contains\<close>

lemma tif_overlap_gen:
  "''.tif'' = (c # cs) @ us \<Longrightarrow> prefix us (''.tif'' @ v) \<Longrightarrow> us = []"
  by (auto simp: Cons_eq_append_conv append_eq_Cons_conv prefix_Cons)

lemma str_replace_tif_first:
  "\<not> (\<exists>x y. u = x @ ''.tif'' @ y) \<Longrightarrow>
     str_replace ''.tif'' '''' (u @ ''.tif'' @ v) = u @ str_replace ''.tif'' '''' v"
proof (induction u)
  case Nil
  have "str_replace ''.tif'' '''' (''.tif'' @ v)
      = '''' @ str_replace ''.tif'' '''' (drop (length ''.tif'') (''.tif'' @ v))"
    by (rule str_replace_prefix) simp_all
  then show ?case by simp
next
  case (Cons c cs)
  have "\<not> prefix ''.tif'' ((c # cs) @ ''.tif'' @ v)"
  proof
    assume "prefix ''.tif'' ((c # cs) @ ''.tif'' @ v)"
    then consider "prefix ''.tif'' (c # cs)"
      | us where "''.tif'' = (c # cs) @ us" "prefix us (''.tif'' @ v)"
      unfolding prefix_append by blast
    then show False
    proof cases
      case 1
      then obtain y where "c # cs = [] @ ''.tif'' @ y" by (auto simp: prefix_def)
      with Cons.prems show False by blast
    next
      case 2
      then have "us = []" by (rule tif_overlap_gen)
      with 2 have "c # cs = [] @ ''.tif'' @ []" by simp
      with Cons.prems show False by blast
    qed
  qed
  then have step: "str_replace ''.tif'' '''' (c # cs @ ''.tif'' @ v)
      = c # str_replace ''.tif'' '''' (cs @ ''.tif'' @ v)"
    using str_replace_tif_Cons [of c "cs @ ''.tif'' @ v"] by simp
  have "\<not> (\<exists>x y. cs = x @ ''.tif'' @ y)"
  proof
    assume "\<exists>x y. cs = x @ ''.tif'' @ y"
    then obtain x y where "cs = x @ ''.tif'' @ y" by blast
    then have "c # cs = (c # x) @ ''.tif'' @ y" by simp
    with Cons.prems show False by blast
  qed
  then have "str_replace ''.tif'' '''' (cs @ ''.tif'' @ v) = cs @ str_replace ''.tif'' '''' v"
    by (rule Cons.IH)
  with step show ?case by simp
qed

lemma process_matches_mono:
  "process_matches a t pid gid ms s = Inr s' \<Longrightarrow> set s \<subseteq> set s'"
proof (induction ms arbitrary: s)
  case Nil
  then show ?case by simp
next
  case (Cons m ms)
  from Cons.prems show ?case
    by (auto split: if_splits sum.splits option.splits dest!: Cons.IH)
qed

lemma process_matches_emits:
  "m \<in> set ms \<Longrightarrow> match_quality m \<noteq> - 1 \<Longrightarrow> tile_from_tile a t (position m) = Inr (Some n)
     \<Longrightarrow> process_matches a t pid gid ms s = Inr s' \<Longrightarrow> sample pid gid m n \<in> set s'"
proof (induction ms arbitrary: s)
  case Nil
  then show ?case by simp
next
  case (Cons m' ms)
  show ?case
  proof (cases "m' = m")
    case True
    with Cons.prems have "process_matches a t pid gid ms (s @ [sample pid gid m n]) = Inr s'"
      by simp
    from process_matches_mono [OF this] show ?thesis by simp
  next
    case False
    with Cons.prems have m: "m \<in> set ms" by simp
    from Cons.prems(4) obtain s1 where "process_matches a t pid gid ms s1 = Inr s'"
      by (auto split: if_splits sum.splits option.splits)
    with m Cons.prems(2,3) show ?thesis by (rule Cons.IH)
  qed
qed

lemma process_tiles_mono:
  "process_tiles a gid ts (s, sp) = Inr (s', sp') \<Longrightarrow> set s \<subseteq> set s'"
proof (induction ts arbitrary: s sp)
  case Nil
  then show ?case by simp
next
  case (Cons t ts)
  from Cons.prems show ?case
    by (auto simp: Let_def split: option.splits sum.splits
        dest!: Cons.IH process_matches_mono)
qed

lemma process_tiles_emits:
  "t \<in> set ts \<Longrightarrow> matcher t = Some ms \<Longrightarrow> m \<in> set ms \<Longrightarrow> match_quality m \<noteq> - 1
     \<Longrightarrow> tile_from_tile a t (position m) = Inr (Some n)
     \<Longrightarrow> process_tiles a gid ts (s, sp) = Inr (s', sp')
     \<Longrightarrow> sample (str_replace ''.tif'' '''' (img_path t)) gid m n \<in> set s'"
proof (induction ts arbitrary: s sp)
  case Nil
  then show ?case by simp
next
  case (Cons t' ts)
  show ?case
  proof (cases "t' = t")
    case True
    with Cons.prems(2,6) obtain s1 sp1 where
      s1: "process_matches a t (str_replace ''.tif'' '''' (img_path t)) gid ms s = Inr s1"
      and rest: "process_tiles a gid ts (s1, sp1) = Inr (s', sp')"
      by (auto simp: Let_def split: sum.splits)
    from Cons.prems(3,4,5) s1
    have "sample (str_replace ''.tif'' '''' (img_path t)) gid m n \<in> set s1"
      by (rule process_matches_emits)
    with process_tiles_mono [OF rest] show ?thesis by blast
  next
    case False
    with Cons.prems have t: "t \<in> set ts" by simp
    from Cons.prems(6) obtain s1 sp1 where "process_tiles a gid ts (s1, sp1) = Inr (s', sp')"
      by (auto simp: Let_def split: option.splits sum.splits)
    with t Cons.prems(2-5) show ?thesis by (rule Cons.IH)
  qed
qed

lemma tile_from_tile_trows:
  "tile_from_tile \<lparr>raster_pos_lookup = l, trows = r, tcols = c\<rparr> t d
     = tile_from_tile \<lparr>raster_pos_lookup = l, trows = r', tcols = c\<rparr> t d"
  by (cases "raster_pos (img_meta t)"; cases d)
    (simp_all add: tile_from_tile_def tile_from_raster_pos_def)

lemma process_Inr_tiles:
  "process md data = Inr doc \<Longrightarrow>
     \<exists>rows cols samples tilespecs.
        py_max (map (\<lambda>t. snd (raster_pos (img_meta t))) data) = Inr rows
      \<and> py_max (map (\<lambda>t. fst (raster_pos (img_meta t))) data) = Inr cols
      \<and> process_tiles \<lparr>raster_pos_lookup = create_raster_pos_dict data, trows = rows,
            tcols = cols\<rparr> (session_id md) data ([], []) = Inr (samples, tilespecs)
      \<and> doc = Flat samples"
  by (auto simp: process_def Let_def split: sum.splits prod.splits)

lemma process_emits:
  assumes run: "process md data = Inr (Flat samples)"
    and cols: "py_max (map (\<lambda>t. fst (raster_pos (img_meta t))) data) = Inr cols"
    and t: "t \<in> set data" "matcher t = Some ms" "m \<in> set ms" "match_quality m \<noteq> - 1"
    and n: "tile_from_tile \<lparr>raster_pos_lookup = create_raster_pos_dict data, trows = rows,
            tcols = cols\<rparr> t (position m) = Inr (Some n)"
  shows "sample (str_replace ''.tif'' '''' (img_path t)) (session_id md) m n \<in> set samples"
proof -
  from process_Inr_tiles [OF run] cols obtain rows' tilespecs where
    tiles: "process_tiles \<lparr>raster_pos_lookup = create_raster_pos_dict data, trows = rows',
      tcols = cols\<rparr> (session_id md) data ([], []) = Inr (samples, tilespecs)"
    by auto
  from n have "tile_from_tile \<lparr>raster_pos_lookup = create_raster_pos_dict data, trows = rows',
            tcols = cols\<rparr> t (position m) = Inr (Some n)"
    by (simp only: tile_from_tile_trows [of _ rows' _ _ _ rows])
  with t show ?thesis using tiles by (rule process_tiles_emits)
qed

lemma process_provenance_resolved:
  assumes run: "process md data = Inr (Flat samples)" and c: "c \<in> set samples"
    and cols: "py_max (map (\<lambda>t. fst (raster_pos (img_meta t))) data) = Inr cols"
  shows "\<exists>t ms m n. t \<in> set data \<and> matcher t = Some ms \<and> m \<in> set ms
           \<and> match_quality m \<noteq> - 1
           \<and> tile_from_tile \<lparr>raster_pos_lookup = create_raster_pos_dict data, trows = rows,
                tcols = cols\<rparr> t (position m) = Inr (Some n)
           \<and> c = sample (str_replace ''.tif'' '''' (img_path t)) (session_id md) m n"
proof -
  from process_Inr_tiles [OF run] cols obtain rows' tilespecs where
    tiles: "process_tiles \<lparr>raster_pos_lookup = create_raster_pos_dict data, trows = rows',
      tcols = cols\<rparr> (session_id md) data ([], []) = Inr (samples, tilespecs)"
    by auto
  from process_tiles_provenance [OF tiles c]
  obtain t ms m n where found: "t \<in> set data" "matcher t = Some ms" "m \<in> set ms"
    "match_quality m \<noteq> - 1"
    "tile_from_tile \<lparr>raster_pos_lookup = create_raster_pos_dict data, trows = rows',
      tcols = cols\<rparr> t (position m) = Inr (Some n)"
    "c = sample (str_replace ''.tif'' '''' (img_path t)) (session_id md) m n"
    by auto
  from found(5) have "tile_from_tile \<lparr>raster_pos_lookup = create_raster_pos_dict data,
      trows = rows, tcols = cols\<rparr> t (position m) = Inr (Some n)"
    by (simp only: tile_from_tile_trows [of _ rows _ _ _ rows'])
  with found show ?thesis by blast
qed

lemma process_matches_drop:
  "match_quality m = - 1 \<or> tile_from_tile a t (position m) = Inr None \<Longrightarrow>
     process_matches a t pid gid (ms1 @ m # ms2) s = process_matches a t pid gid (ms1 @ ms2) s"
proof (induction ms1 arbitrary: s)
  case Nil
  then show ?case by auto
next
  case (Cons m1 ms1)
  then show ?case by (simp split: sum.splits option.splits)
qed

lemma process_delete_match:
  assumes drop: "\<And>r c pid gid s.
      py_max (map (\<lambda>t. fst (raster_pos (img_meta t)))
        (ts1 @ t\<lparr>matcher := Some (ms1 @ m # ms2)\<rparr> # ts2)) = Inr c \<Longrightarrow>
      process_matches \<lparr>raster_pos_lookup = create_raster_pos_dict
          (ts1 @ t\<lparr>matcher := Some (ms1 @ m # ms2)\<rparr> # ts2), trows = r, tcols = c\<rparr>
        (t\<lparr>matcher := Some (ms1 @ m # ms2)\<rparr>) pid gid (ms1 @ m # ms2) s
      = process_matches \<lparr>raster_pos_lookup = create_raster_pos_dict
          (ts1 @ t\<lparr>matcher := Some (ms1 @ m # ms2)\<rparr> # ts2), trows = r, tcols = c\<rparr>
        (t\<lparr>matcher := Some (ms1 @ m # ms2)\<rparr>) pid gid (ms1 @ ms2) s"
  shows "process md (ts1 @ t\<lparr>matcher := Some (ms1 @ m # ms2)\<rparr> # ts2)
       = process md (ts1 @ t\<lparr>matcher := Some (ms1 @ ms2)\<rparr> # ts2)"
proof -
  let ?t1 = "t\<lparr>matcher := Some (ms1 @ m # ms2)\<rparr>" and ?t2 = "t\<lparr>matcher := Some (ms1 @ ms2)\<rparr>"
  let ?d1 = "ts1 @ ?t1 # ts2" and ?d2 = "ts1 @ ?t2 # ts2"
  have paths: "map img_path ?d1 = map img_path ?d2" and metas: "map img_meta ?d1 = map img_meta ?d2"
    by simp_all
  have rows: "map (\<lambda>t. snd (raster_pos (img_meta t))) ?d1 = map (\<lambda>t. snd (raster_pos (img_meta t))) ?d2"
    and cols: "map (\<lambda>t. fst (raster_pos (img_meta t))) ?d1 = map (\<lambda>t. fst (raster_pos (img_meta t))) ?d2"
    by simp_all
  have sim: "map_option img_path (create_raster_pos_dict ?d1 k)
      = map_option img_path (create_raster_pos_dict ?d2 k)" for k
    unfolding create_raster_pos_dict_def
    using paths metas by (rule create_raster_pos_dict_loop_sim) simp
  show ?thesis
  proof (cases "py_max (map (\<lambda>t. fst (raster_pos (img_meta t))) ?d1)")
    case (Inl e)
    then have "py_max (map (\<lambda>t. fst (raster_pos (img_meta t))) ?d2) = Inl e"
      by (simp only: cols)
    with Inl show ?thesis
      unfolding process_def rows by (simp split: sum.splits)
  next
    case (Inr c)
    then have c2: "py_max (map (\<lambda>t. fst (raster_pos (img_meta t))) ?d2) = Inr c"
      by (simp only: cols)
    have tiles: "process_tiles \<lparr>raster_pos_lookup = create_raster_pos_dict ?d1, trows = r, tcols = c\<rparr>
          gid ?d1 acc
      = process_tiles \<lparr>raster_pos_lookup = create_raster_pos_dict ?d2, trows = r, tcols = c\<rparr>
          gid ?d2 acc" for r gid acc
    proof -
      let ?a1 = "\<lparr>raster_pos_lookup = create_raster_pos_dict ?d1, trows = r, tcols = c\<rparr>"
      let ?a2 = "\<lparr>raster_pos_lookup = create_raster_pos_dict ?d2, trows = r, tcols = c\<rparr>"
      have same: "process_tiles ?a1 gid ts acc' = process_tiles ?a2 gid ts acc'" for ts acc'
        by (rule process_tiles_sim) (simp_all add: sim)
      have "process_matches ?a1 ?t1 pid gid (ms1 @ m # ms2) s'
          = process_matches ?a1 ?t1 pid gid (ms1 @ ms2) s'" for pid s'
        using Inr by (rule drop)
      also have "process_matches ?a1 ?t1 pid gid (ms1 @ ms2) s'
          = process_matches ?a2 ?t2 pid gid (ms1 @ ms2) s'" for pid s'
        by (rule process_matches_sim) (simp_all add: sim)
      finally have one: "process_matches ?a1 ?t1 pid gid (ms1 @ m # ms2) s'
          = process_matches ?a2 ?t2 pid gid (ms1 @ ms2) s'" for pid s' .
      have step: "process_tiles ?a1 gid (?t1 # ts2) acc' = process_tiles ?a2 gid (?t2 # ts2) acc'"
        for acc'
        by (cases acc') (simp add: Let_def one same cong: sum.case_cong)
      show ?thesis
        by (simp only: process_tiles_append same [of ts1] step cong: sum.case_cong)
    qed
    have "process md ?d1 = (case py_max (map (\<lambda>t. snd (raster_pos (img_meta t))) ?d2) of
        Inl e \<Rightarrow> Inl e
      | Inr r \<Rightarrow> (case process_tiles
            \<lparr>raster_pos_lookup = create_raster_pos_dict ?d1, trows = r, tcols = c\<rparr>
            (session_id md) ?d1 ([], []) of
           Inl e \<Rightarrow> Inl e | Inr (samples, tilespecs) \<Rightarrow> Inr (Flat samples)))"
      unfolding process_def rows Inr Let_def by (simp only: sum.case)
    also have "\<dots> = process md ?d2"
      unfolding process_def c2 Let_def by (simp only: sum.case tiles cong: sum.case_cong)
    finally show ?thesis .
  qed
qed

subsection \<open>The right-hand bound\<close>

text \<open>C6. The column bound that the conversion passes to the resolver is the largest
  column of any tile. A tile in that column gets none for RIGHT and its RIGHT match is
  dropped: the conversion gives the same result as on the input without that match. A tile
  in a smaller column gets the tile stored for the cell to its right when that cell is
  occupied, which is the last tile of the input with that raster position, and a RIGHT
  match of a quality other than -1 is then in the written list.\<close>

theorem right_neighbor_strict_bound:
  assumes cols: "py_max (map (\<lambda>t. fst (raster_pos (img_meta t))) data) = Inr cols"
    and a: "a = \<lparr>raster_pos_lookup = create_raster_pos_dict data, trows = rows, tcols = cols\<rparr>"
    and t: "t \<in> set data" and pos: "raster_pos (img_meta t) = (col, row)"
  shows "cols = Max ((\<lambda>t. fst (raster_pos (img_meta t))) ` set data)
     \<and> (col = cols \<longrightarrow>
          tile_from_tile a t (Some (Edge_value RIGHT)) = Inr None
          \<and> (position m = Some (Edge_value RIGHT) \<longrightarrow>
               process_matches a t pid gid (m # ms) s = process_matches a t pid gid ms s)
          \<and> (position m = Some (Edge_value RIGHT) \<and> data = ts1 @ t # ts2
               \<and> matcher t = Some (ms1 @ m # ms2) \<longrightarrow>
               process md data = process md (ts1 @ t\<lparr>matcher := Some (ms1 @ ms2)\<rparr> # ts2)))
     \<and> (col < cols \<longrightarrow> (\<exists>u \<in> set data. raster_pos (img_meta u) = (col + 1, row)) \<longrightarrow>
          (\<exists>n \<in> set data. raster_pos (img_meta n) = (col + 1, row)
             \<and> n = last (filter (\<lambda>u. raster_pos (img_meta u) = (col + 1, row)) data)
             \<and> tile_from_tile a t (Some (Edge_value RIGHT)) = Inr (Some n)
             \<and> (matcher t = Some ms' \<and> m \<in> set ms' \<and> position m = Some (Edge_value RIGHT)
                  \<and> match_quality m \<noteq> - 1 \<and> process md data = Inr (Flat samples) \<longrightarrow>
                  sample (str_replace ''.tif'' '''' (img_path t)) (session_id md) m n
                    \<in> set samples)))"
proof (intro conjI impI)
  obtain x xs where data: "data = x # xs" using t by (cases data) auto
  from cols show "cols = Max ((\<lambda>t. fst (raster_pos (img_meta t))) ` set data)"
    unfolding data list.map py_max_Max by simp
next
  assume "col = cols"
  then show none: "tile_from_tile a t (Some (Edge_value RIGHT)) = Inr None"
    using pos a by (simp add: tile_from_tile_def tile_from_raster_pos_def)
  assume "position m = Some (Edge_value RIGHT)"
  with none show "process_matches a t pid gid (m # ms) s = process_matches a t pid gid ms s"
    by simp
next
  assume edge: "col = cols"
    and given: "position m = Some (Edge_value RIGHT) \<and> data = ts1 @ t # ts2
      \<and> matcher t = Some (ms1 @ m # ms2)"
  let ?t1 = "t\<lparr>matcher := Some (ms1 @ m # ms2)\<rparr>"
  from given have teq: "?t1 = t" by simp
  from given have deq: "ts1 @ ?t1 # ts2 = data" by (simp only: teq)
  have "process md (ts1 @ ?t1 # ts2) = process md (ts1 @ t\<lparr>matcher := Some (ms1 @ ms2)\<rparr> # ts2)"
  proof (rule process_delete_match)
    fix r c pid gid s
    assume "py_max (map (\<lambda>t. fst (raster_pos (img_meta t))) (ts1 @ ?t1 # ts2)) = Inr c"
    with cols have c: "c = cols" by (simp only: deq) simp
    have "tile_from_tile \<lparr>raster_pos_lookup = create_raster_pos_dict (ts1 @ ?t1 # ts2),
        trows = r, tcols = c\<rparr> ?t1 (position m) = Inr None"
      using given edge pos c unfolding teq
      by (simp add: tile_from_tile_def tile_from_raster_pos_def)
    then show "process_matches \<lparr>raster_pos_lookup = create_raster_pos_dict (ts1 @ ?t1 # ts2),
        trows = r, tcols = c\<rparr> ?t1 pid gid (ms1 @ m # ms2) s
      = process_matches \<lparr>raster_pos_lookup = create_raster_pos_dict (ts1 @ ?t1 # ts2),
        trows = r, tcols = c\<rparr> ?t1 pid gid (ms1 @ ms2) s"
      by (intro process_matches_drop disjI2)
  qed
  then show "process md data = process md (ts1 @ t\<lparr>matcher := Some (ms1 @ ms2)\<rparr> # ts2)"
    by (simp only: deq)
next
  let ?occ = "filter (\<lambda>u. raster_pos (img_meta u) = (col + 1, row)) data"
  assume less: "col < cols" and "\<exists>u \<in> set data. raster_pos (img_meta u) = (col + 1, row)"
  then obtain u where u: "u \<in> set data" "raster_pos (img_meta u) = (col + 1, row)" by blast
  then have "?occ \<noteq> []" by (auto simp: filter_empty_conv)
  then have "last ?occ \<in> set ?occ" by (rule last_in_set)
  then have occ: "last ?occ \<in> set data" "raster_pos (img_meta (last ?occ)) = (col + 1, row)"
    by simp_all
  have "create_raster_pos_dict data (raster_key (col + 1) row) = Some (last ?occ)"
    using u by (rule create_raster_pos_dict_occupied)
  then have res: "tile_from_tile a t (Some (Edge_value RIGHT)) = Inr (Some (last ?occ))"
    using less pos a by (simp add: tile_from_tile_def tile_from_raster_pos_def getitem_def)
  have "sample (str_replace ''.tif'' '''' (img_path t)) (session_id md) m (last ?occ)
      \<in> set samples"
    if h: "matcher t = Some ms' \<and> m \<in> set ms' \<and> position m = Some (Edge_value RIGHT)
        \<and> match_quality m \<noteq> - 1 \<and> process md data = Inr (Flat samples)"
  proof -
    from h res a have "tile_from_tile \<lparr>raster_pos_lookup = create_raster_pos_dict data,
        trows = rows, tcols = cols\<rparr> t (position m) = Inr (Some (last ?occ))"
      by simp
    with h cols t show ?thesis
      using process_emits [of md data samples cols t ms' m rows "last ?occ"] by blast
  qed
  with occ res show "\<exists>n \<in> set data. raster_pos (img_meta n) = (col + 1, row)
      \<and> n = last ?occ \<and> tile_from_tile a t (Some (Edge_value RIGHT)) = Inr (Some n)
      \<and> (matcher t = Some ms' \<and> m \<in> set ms' \<and> position m = Some (Edge_value RIGHT)
            \<and> match_quality m \<noteq> - 1 \<and> process md data = Inr (Flat samples) \<longrightarrow>
            sample (str_replace ''.tif'' '''' (img_path t)) (session_id md) m n \<in> set samples)"
    by blast
qed

theorem right_neighbor_strict_bound_witness:
  "py_max (map (\<lambda>t. fst (raster_pos (img_meta t))) [tile_001, tile_002]) = Inr 1
   \<and> tile_002 \<in> set [tile_001, tile_002] \<and> raster_pos (img_meta tile_002) = (1, 0)
   \<and> tile_from_tile dense_args tile_002 (Some (Edge_value RIGHT)) = Inr None
   \<and> position match_right_3 = Some (Edge_value RIGHT)
   \<and> process_matches dense_args tile_002 ''tile_002'' ''session_7'' [match_right_3] [] = Inr []
   \<and> matcher tile_002 = Some [match_right_3, match_left_2]
   \<and> process example_metadata [tile_001, tile_002]
       = process example_metadata [tile_001, tile_002\<lparr>matcher := Some [match_left_2]\<rparr>]
   \<and> tile_001 \<in> set [tile_001, tile_002] \<and> raster_pos (img_meta tile_001) = (0, 0)
   \<and> tile_from_tile dense_args tile_001 (Some (Edge_value RIGHT)) = Inr (Some tile_002)
   \<and> matcher tile_001 = Some [match_right_3, match_sentinel]
   \<and> match_quality match_right_3 \<noteq> - 1
   \<and> process example_metadata [tile_001, tile_002] =
       Inr (Flat [sample ''tile_001'' ''session_7'' match_right_3 tile_002,
                  sample ''tile_002'' ''session_7'' match_left_2 tile_001])
   \<and> sample (str_replace ''.tif'' '''' (img_path tile_001)) (session_id example_metadata)
        match_right_3 tile_002
       \<in> set [sample ''tile_001'' ''session_7'' match_right_3 tile_002,
               sample ''tile_002'' ''session_7'' match_left_2 tile_001]"
proof -
  let ?samples = "[sample ''tile_001'' ''session_7'' match_right_3 tile_002,
                   sample ''tile_002'' ''session_7'' match_left_2 tile_001]"
  have h: "py_max (map (\<lambda>t. fst (raster_pos (img_meta t))) [tile_001, tile_002]) = Inr 1"
    "dense_args = \<lparr>raster_pos_lookup = create_raster_pos_dict [tile_001, tile_002],
        trows = 0, tcols = 1\<rparr>"
    "tile_002 \<in> set [tile_001, tile_002]" "raster_pos (img_meta tile_002) = (1, 0)"
    "tile_001 \<in> set [tile_001, tile_002]" "raster_pos (img_meta tile_001) = (0, 0)"
    "position match_right_3 = Some (Edge_value RIGHT)"
    "matcher tile_002 = Some [match_right_3, match_left_2]"
    "matcher tile_001 = Some [match_right_3, match_sentinel]"
    "match_quality match_right_3 \<noteq> - 1"
    by (simp_all add: tile_001_def tile_002_def dense_args_def match_right_3_def)
  have run: "process example_metadata [tile_001, tile_002] = Inr (Flat ?samples)"
    by code_simp
  have split: "[tile_001, tile_002] = [tile_001] @ tile_002 # []"
    "matcher tile_002 = Some ([] @ match_right_3 # [match_left_2])"
    using h(8) by simp_all
  note at_edge = right_neighbor_strict_bound [OF h(1) h(2) h(3) h(4),
      of match_right_3 "''tile_002''" "''session_7''" "[]" "[]" "[tile_001]" "[]" "[]"
        "[match_left_2]" example_metadata,
      THEN conjunct2, THEN conjunct1, THEN mp, OF refl]
  note e1 = at_edge [THEN conjunct1]
  note e2 = at_edge [THEN conjunct2, THEN conjunct1, THEN mp, OF h(7),
      unfolded process_matches.simps(1)]
  note e3 = at_edge [THEN conjunct2, THEN conjunct2, THEN mp,
      OF conjI [OF h(7) conjI [OF split(1) split(2)]], unfolded append_Cons append_Nil]
  have occupied: "\<exists>u \<in> set [tile_001, tile_002]. raster_pos (img_meta u) = (0 + 1, 0)"
    by (simp add: tile_002_def)
  have last: "last (filter (\<lambda>u. raster_pos (img_meta u) = (0 + 1, 0)) [tile_001, tile_002])
      = tile_002"
    by (simp add: tile_001_def tile_002_def)
  have m: "match_right_3 \<in> set [match_right_3, match_sentinel]" by simp
  have less: "(0::int) < 1" by simp
  note below = right_neighbor_strict_bound [OF h(1) h(2) h(5) h(6),
      of match_right_3 _ _ _ _ _ _ _ _ example_metadata "[match_right_3, match_sentinel]"
        ?samples,
      THEN conjunct2, THEN conjunct2, THEN mp, OF less, THEN mp, OF occupied, unfolded last]
  from below have i1: "tile_from_tile dense_args tile_001 (Some (Edge_value RIGHT))
      = Inr (Some tile_002)"
    by blast
  from below h(7) h(9) h(10) m run
  have i2: "sample (str_replace ''.tif'' '''' (img_path tile_001))
      (session_id example_metadata) match_right_3 tile_002 \<in> set ?samples"
    by blast
  from h e1 e2 e3 i1 i2 run show ?thesis by blast
qed

subsection \<open>Directions other than LEFT, TOP and RIGHT\<close>

text \<open>C8, as the code has it. An integer direction code outside LEFT, TOP and RIGHT
  (CENTER and INVALID among them) raises nothing: no branch of the resolver is taken, it
  returns none, the extractor drops the match, and the conversion gives the same result as
  on the input without it. The direction \<open>None\<close> takes the first branch: the resolver
  returns the tile stored for the cell itself, or raises KeyError when the cell is not in
  the lookup table, and never returns none; for a tile of the input that is the last tile
  with its raster position, and a match with a null position and a quality other than -1
  is written as a correspondence of the tile with that tile.\<close>

theorem neighbor_other_direction_none:
  "(d \<notin> {Edge_value LEFT, Edge_value TOP, Edge_value RIGHT} \<longrightarrow>
      tile_from_raster_pos a col row (Some d) = Inr None
      \<and> (position m = Some d \<longrightarrow>
           process_matches a t pid gid (m # ms) s = process_matches a t pid gid ms s)
      \<and> (position m = Some d \<longrightarrow>
           process md (ts1 @ t\<lparr>matcher := Some (ms1 @ m # ms2)\<rparr> # ts2)
             = process md (ts1 @ t\<lparr>matcher := Some (ms1 @ ms2)\<rparr> # ts2)))
   \<and> tile_from_raster_pos a col row None =
       (case raster_pos_lookup a (raster_key col row) of
          None \<Rightarrow> Inl KeyError | Some u \<Rightarrow> Inr (Some u))
   \<and> tile_from_raster_pos a col row None \<noteq> Inr None
   \<and> (py_max (map (\<lambda>t. fst (raster_pos (img_meta t))) data) = Inr cols \<and> u \<in> set data \<longrightarrow>
        (\<exists>n \<in> set data. raster_pos (img_meta n) = raster_pos (img_meta u)
           \<and> n = last (filter (\<lambda>v. raster_pos (img_meta v) = raster_pos (img_meta u)) data)
           \<and> tile_from_tile \<lparr>raster_pos_lookup = create_raster_pos_dict data, trows = rows,
                tcols = cols\<rparr> u None = Inr (Some n)
           \<and> (matcher u = Some ms' \<and> m' \<in> set ms' \<and> position m' = None
                \<and> match_quality m' \<noteq> - 1 \<and> process md data = Inr (Flat samples) \<longrightarrow>
                sample (str_replace ''.tif'' '''' (img_path u)) (session_id md) m' n
                  \<in> set samples)))"
proof (intro conjI impI)
  assume "d \<notin> {Edge_value LEFT, Edge_value TOP, Edge_value RIGHT}"
  then show "tile_from_raster_pos a col row (Some d) = Inr None"
    by (simp add: tile_from_raster_pos_def)
next
  assume "d \<notin> {Edge_value LEFT, Edge_value TOP, Edge_value RIGHT}" and "position m = Some d"
  then show "process_matches a t pid gid (m # ms) s = process_matches a t pid gid ms s"
    by (simp add: tile_from_raster_pos_def tile_from_tile_def split: prod.splits)
next
  assume d: "d \<notin> {Edge_value LEFT, Edge_value TOP, Edge_value RIGHT}" and m: "position m = Some d"
  have none: "tile_from_tile b v (position m) = Inr None" for b v
    using d m by (simp add: tile_from_raster_pos_def tile_from_tile_def split: prod.splits)
  show "process md (ts1 @ t\<lparr>matcher := Some (ms1 @ m # ms2)\<rparr> # ts2)
      = process md (ts1 @ t\<lparr>matcher := Some (ms1 @ ms2)\<rparr> # ts2)"
    by (rule process_delete_match) (intro process_matches_drop disjI2 none)
next
  show "tile_from_raster_pos a col row None =
       (case raster_pos_lookup a (raster_key col row) of
          None \<Rightarrow> Inl KeyError | Some u \<Rightarrow> Inr (Some u))"
    by (simp add: tile_from_raster_pos_def getitem_def split: option.splits)
next
  show "tile_from_raster_pos a col row None \<noteq> Inr None"
    by (simp add: tile_from_raster_pos_def getitem_def split: option.splits)
next
  let ?own = "filter (\<lambda>v. raster_pos (img_meta v) = raster_pos (img_meta u)) data"
  assume given: "py_max (map (\<lambda>t. fst (raster_pos (img_meta t))) data) = Inr cols \<and> u \<in> set data"
  obtain c r where rp: "raster_pos (img_meta u) = (c, r)" by (cases "raster_pos (img_meta u)")
  from given have "?own \<noteq> []" by (auto simp: filter_empty_conv)
  then have "last ?own \<in> set ?own" by (rule last_in_set)
  then have own: "last ?own \<in> set data" "raster_pos (img_meta (last ?own)) = raster_pos (img_meta u)"
    by simp_all
  have "create_raster_pos_dict data (raster_key c r) = Some (last ?own)"
    using given rp create_raster_pos_dict_occupied [of u data c r] by simp
  then have res: "tile_from_tile \<lparr>raster_pos_lookup = create_raster_pos_dict data, trows = rows,
      tcols = cols\<rparr> u None = Inr (Some (last ?own))"
    using rp by (simp add: tile_from_tile_def tile_from_raster_pos_def getitem_def)
  have "sample (str_replace ''.tif'' '''' (img_path u)) (session_id md) m' (last ?own)
      \<in> set samples"
    if h: "matcher u = Some ms' \<and> m' \<in> set ms' \<and> position m' = None
        \<and> match_quality m' \<noteq> - 1 \<and> process md data = Inr (Flat samples)"
  proof -
    from h res have "tile_from_tile \<lparr>raster_pos_lookup = create_raster_pos_dict data,
        trows = rows, tcols = cols\<rparr> u (position m') = Inr (Some (last ?own))"
      by simp
    with h given show ?thesis
      using process_emits [of md data samples cols u ms' m' rows "last ?own"] by blast
  qed
  with own res show "\<exists>n \<in> set data. raster_pos (img_meta n) = raster_pos (img_meta u)
      \<and> n = last ?own
      \<and> tile_from_tile \<lparr>raster_pos_lookup = create_raster_pos_dict data, trows = rows,
            tcols = cols\<rparr> u None = Inr (Some n)
      \<and> (matcher u = Some ms' \<and> m' \<in> set ms' \<and> position m' = None
            \<and> match_quality m' \<noteq> - 1 \<and> process md data = Inr (Flat samples) \<longrightarrow>
            sample (str_replace ''.tif'' '''' (img_path u)) (session_id md) m' n \<in> set samples)"
    by blast
qed

theorem neighbor_other_direction_none_witness:
  "Edge_value CENTER \<notin> {Edge_value LEFT, Edge_value TOP, Edge_value RIGHT}
   \<and> tile_from_raster_pos dense_args 0 0 (Some (Edge_value CENTER)) = Inr None
   \<and> position match_center = Some (Edge_value CENTER)
   \<and> process_matches dense_args tile_center ''tile_005'' ''session_7'' [match_center] [] = Inr []
   \<and> process example_metadata [tile_center, tile_002]
       = process example_metadata [tile_center\<lparr>matcher := Some []\<rparr>, tile_002]
   \<and> py_max (map (\<lambda>t. fst (raster_pos (img_meta t))) [tile_null, tile_002]) = Inr 1
   \<and> tile_null \<in> set [tile_null, tile_002]
   \<and> tile_from_tile \<lparr>raster_pos_lookup = create_raster_pos_dict [tile_null, tile_002],
        trows = 0, tcols = 1\<rparr> tile_null None = Inr (Some tile_null)
   \<and> matcher tile_null = Some [match_null] \<and> position match_null = None
   \<and> match_quality match_null \<noteq> - 1
   \<and> process example_metadata [tile_null, tile_002] =
       Inr (Flat [sample ''tile_006'' ''session_7'' match_null tile_null,
                  sample ''tile_002'' ''session_7'' match_left_2 tile_null])
   \<and> sample (str_replace ''.tif'' '''' (img_path tile_null)) (session_id example_metadata)
        match_null tile_null
       \<in> set [sample ''tile_006'' ''session_7'' match_null tile_null,
               sample ''tile_002'' ''session_7'' match_left_2 tile_null]
   \<and> pId (sample ''tile_006'' ''session_7'' match_null tile_null) = ''tile_006''
   \<and> qId (sample ''tile_006'' ''session_7'' match_null tile_null) = ''tile_006''"
proof -
  let ?samples = "[sample ''tile_006'' ''session_7'' match_null tile_null,
                   sample ''tile_002'' ''session_7'' match_left_2 tile_null]"
  have h: "Edge_value CENTER \<notin> {Edge_value LEFT, Edge_value TOP, Edge_value RIGHT}"
    "position match_center = Some (Edge_value CENTER)"
    "py_max (map (\<lambda>t. fst (raster_pos (img_meta t))) [tile_null, tile_002]) = Inr 1"
    "tile_null \<in> set [tile_null, tile_002]"
    "matcher tile_null = Some [match_null]" "position match_null = None"
    "match_quality match_null \<noteq> - 1" "match_null \<in> set [match_null]"
    by (simp_all add: match_center_def tile_null_def tile_002_def match_null_def)
  have tc: "tile_center\<lparr>matcher := Some [match_center]\<rparr> = tile_center"
    by (simp add: tile_center_def)
  have run: "process example_metadata [tile_null, tile_002] = Inr (Flat ?samples)"
    by code_simp
  have ids: "pId (sample ''tile_006'' ''session_7'' match_null tile_null) = ''tile_006''"
    "qId (sample ''tile_006'' ''session_7'' match_null tile_null) = ''tile_006''"
    by code_simp+
  have last: "last (filter (\<lambda>v. raster_pos (img_meta v) = raster_pos (img_meta tile_null))
      [tile_null, tile_002]) = tile_null"
    by (simp add: tile_null_def tile_002_def)
  note all = neighbor_other_direction_none
    [of "Edge_value CENTER" dense_args 0 0 match_center tile_center "''tile_005''"
      "''session_7''" "[]" "[]" example_metadata "[]" "[]" "[]" "[tile_002]"
      "[tile_null, tile_002]" 1 tile_null 0 "[match_null]" match_null ?samples]
  note other = all [THEN conjunct1, THEN mp, OF h(1)]
  note o1 = other [THEN conjunct1]
  note o2 = other [THEN conjunct2, THEN conjunct1, THEN mp, OF h(2),
      unfolded process_matches.simps(1)]
  note o3 = other [THEN conjunct2, THEN conjunct2, THEN mp, OF h(2),
      unfolded append_Cons append_Nil tc]
  note null = all [THEN conjunct2, THEN conjunct2, THEN conjunct2, THEN mp,
      OF conjI [OF h(3) h(4)], unfolded last]
  from null have n1: "tile_from_tile \<lparr>raster_pos_lookup = create_raster_pos_dict
      [tile_null, tile_002], trows = 0, tcols = 1\<rparr> tile_null None = Inr (Some tile_null)"
    by blast
  from null h(5) h(6) h(7) h(8) run
  have n2: "sample (str_replace ''.tif'' '''' (img_path tile_null))
      (session_id example_metadata) match_null tile_null \<in> set ?samples"
    by blast
  from h o1 o2 o3 n1 n2 run ids show ?thesis by blast
qed

theorem neighbor_other_direction_counterexample:
  "tile_from_raster_pos dense_args 0 0 (Some (Edge_value CENTER)) = Inr None
   \<and> tile_from_raster_pos dense_args 0 0 (Some (Edge_value INVALID)) = Inr None
   \<and> process example_metadata [tile_center, tile_002] =
       Inr (Flat [\<lparr>pId = ''tile_002'', qId = ''tile_005'', pGroupId = ''session_7'',
                   qGroupId = ''session_7'',
                   matches = \<lparr>p = [[1, 2], [3, 4]], q = [[5, 6], [7, 8]], w = [1, 1],
                              match_count = 2\<rparr>\<rparr>])"
  by code_simp

subsection \<open>Identifiers\<close>

text \<open>C4, as the code has it. The pId of every correspondence of the written list is the
  image path of the tile that holds the match, and the qId the image path of the tile the
  resolver returned for it, both after \<open>replace(".tif", "")\<close>; every resolved match of
  a quality other than -1 has such a record in the list. The replacement removes every
  occurrence of \<open>.tif\<close>, the leftmost first, and not only a trailing extension: a path
  without \<open>.tif\<close> is left as it is, a path whose only \<open>.tif\<close> is its ending loses that
  ending, and \<open>tile_001.tif\<close> becomes \<open>tile_001\<close>.\<close>

theorem ids_replace_every_tif:
  "(process md data = Inr (Flat samples) \<and> c \<in> set samples \<longrightarrow>
      (\<exists>cols t ms m n.
          py_max (map (\<lambda>t. fst (raster_pos (img_meta t))) data) = Inr cols
        \<and> t \<in> set data \<and> matcher t = Some ms \<and> m \<in> set ms \<and> match_quality m \<noteq> - 1
        \<and> tile_from_tile \<lparr>raster_pos_lookup = create_raster_pos_dict data, trows = rows,
             tcols = cols\<rparr> t (position m) = Inr (Some n)
        \<and> pId c = str_replace ''.tif'' '''' (img_path t)
        \<and> qId c = str_replace ''.tif'' '''' (img_path n)))
   \<and> (process md data = Inr (Flat samples)
        \<and> py_max (map (\<lambda>t. fst (raster_pos (img_meta t))) data) = Inr cols'
        \<and> t' \<in> set data \<and> matcher t' = Some ms' \<and> m' \<in> set ms' \<and> match_quality m' \<noteq> - 1
        \<and> tile_from_tile \<lparr>raster_pos_lookup = create_raster_pos_dict data, trows = rows,
             tcols = cols'\<rparr> t' (position m') = Inr (Some n') \<longrightarrow>
      (\<exists>c' \<in> set samples. pId c' = str_replace ''.tif'' '''' (img_path t')
        \<and> qId c' = str_replace ''.tif'' '''' (img_path n')))
   \<and> (\<not> sublist ''.tif'' s \<longrightarrow> str_replace ''.tif'' '''' s = s)
   \<and> (\<not> sublist ''.tif'' b \<longrightarrow> str_replace ''.tif'' '''' (b @ ''.tif'') = b)
   \<and> (\<not> sublist ''.tif'' u \<longrightarrow>
        str_replace ''.tif'' '''' (u @ ''.tif'' @ v) = u @ str_replace ''.tif'' '''' v)
   \<and> str_replace ''.tif'' '''' ''tile_001.tif'' = ''tile_001''"
proof (intro conjI impI)
  assume "process md data = Inr (Flat samples) \<and> c \<in> set samples"
  then have run: "process md data = Inr (Flat samples)" and c: "c \<in> set samples" by simp_all
  from process_Inr_tiles [OF run] obtain cols where
    cols: "py_max (map (\<lambda>t. fst (raster_pos (img_meta t))) data) = Inr cols"
    by blast
  from process_provenance_resolved [OF run c cols, of rows]
  obtain t ms m n where found: "t \<in> set data" "matcher t = Some ms" "m \<in> set ms"
    "match_quality m \<noteq> - 1"
    "tile_from_tile \<lparr>raster_pos_lookup = create_raster_pos_dict data, trows = rows,
       tcols = cols\<rparr> t (position m) = Inr (Some n)"
    "c = sample (str_replace ''.tif'' '''' (img_path t)) (session_id md) m n"
    by blast
  from found(6) have "pId c = str_replace ''.tif'' '''' (img_path t)"
    "qId c = str_replace ''.tif'' '''' (img_path n)"
    by (simp_all add: sample_def Let_def)
  with cols found(1-5) show "\<exists>cols t ms m n.
          py_max (map (\<lambda>t. fst (raster_pos (img_meta t))) data) = Inr cols
        \<and> t \<in> set data \<and> matcher t = Some ms \<and> m \<in> set ms \<and> match_quality m \<noteq> - 1
        \<and> tile_from_tile \<lparr>raster_pos_lookup = create_raster_pos_dict data, trows = rows,
             tcols = cols\<rparr> t (position m) = Inr (Some n)
        \<and> pId c = str_replace ''.tif'' '''' (img_path t)
        \<and> qId c = str_replace ''.tif'' '''' (img_path n)"
    by blast
next
  let ?c = "sample (str_replace ''.tif'' '''' (img_path t')) (session_id md) m' n'"
  assume h: "process md data = Inr (Flat samples)
        \<and> py_max (map (\<lambda>t. fst (raster_pos (img_meta t))) data) = Inr cols'
        \<and> t' \<in> set data \<and> matcher t' = Some ms' \<and> m' \<in> set ms' \<and> match_quality m' \<noteq> - 1
        \<and> tile_from_tile \<lparr>raster_pos_lookup = create_raster_pos_dict data, trows = rows,
             tcols = cols'\<rparr> t' (position m') = Inr (Some n')"
  then have "?c \<in> set samples"
    using process_emits [of md data samples cols' t' ms' m' rows n'] by blast
  moreover have "pId ?c = str_replace ''.tif'' '''' (img_path t')"
    "qId ?c = str_replace ''.tif'' '''' (img_path n')"
    by (simp_all add: sample_def Let_def)
  ultimately show "\<exists>c' \<in> set samples. pId c' = str_replace ''.tif'' '''' (img_path t')
        \<and> qId c' = str_replace ''.tif'' '''' (img_path n')"
    by blast
next
  assume "\<not> sublist ''.tif'' s"
  then have "\<not> (\<exists>u v. s = u @ ''.tif'' @ v)" unfolding sublist_def .
  then show "str_replace ''.tif'' '''' s = s" by (rule str_replace_tif_absent)
next
  assume "\<not> sublist ''.tif'' b"
  then have "\<not> (\<exists>u v. b = u @ ''.tif'' @ v)" unfolding sublist_def .
  then show "str_replace ''.tif'' '''' (b @ ''.tif'') = b" by (rule str_replace_tif_suffix)
next
  assume "\<not> sublist ''.tif'' u"
  then have "\<not> (\<exists>x y. u = x @ ''.tif'' @ y)" unfolding sublist_def .
  then show "str_replace ''.tif'' '''' (u @ ''.tif'' @ v) = u @ str_replace ''.tif'' '''' v"
    by (rule str_replace_tif_first)
next
  show "str_replace ''.tif'' '''' ''tile_001.tif'' = ''tile_001''" by code_simp
qed

theorem ids_replace_every_tif_witness:
  "process example_metadata [tile_double_ext, tile_tiff] =
     Inr (Flat [sample ''scan'' ''session_7'' match_right_3 tile_tiff])
   \<and> sample ''scan'' ''session_7'' match_right_3 tile_tiff
       \<in> set [sample ''scan'' ''session_7'' match_right_3 tile_tiff]
   \<and> (\<exists>cols t ms m n.
         py_max (map (\<lambda>t. fst (raster_pos (img_meta t))) [tile_double_ext, tile_tiff]) = Inr cols
       \<and> t \<in> set [tile_double_ext, tile_tiff] \<and> matcher t = Some ms \<and> m \<in> set ms
       \<and> match_quality m \<noteq> - 1
       \<and> tile_from_tile \<lparr>raster_pos_lookup = create_raster_pos_dict [tile_double_ext, tile_tiff],
            trows = 0, tcols = cols\<rparr> t (position m) = Inr (Some n)
       \<and> pId (sample ''scan'' ''session_7'' match_right_3 tile_tiff)
           = str_replace ''.tif'' '''' (img_path t)
       \<and> qId (sample ''scan'' ''session_7'' match_right_3 tile_tiff)
           = str_replace ''.tif'' '''' (img_path n))
   \<and> py_max (map (\<lambda>t. fst (raster_pos (img_meta t))) [tile_double_ext, tile_tiff]) = Inr 1
   \<and> tile_double_ext \<in> set [tile_double_ext, tile_tiff]
   \<and> matcher tile_double_ext = Some [match_right_3]
   \<and> match_right_3 \<in> set [match_right_3] \<and> match_quality match_right_3 \<noteq> - 1
   \<and> tile_from_tile \<lparr>raster_pos_lookup = create_raster_pos_dict [tile_double_ext, tile_tiff],
        trows = 0, tcols = 1\<rparr> tile_double_ext (position match_right_3) = Inr (Some tile_tiff)
   \<and> (\<exists>c' \<in> set [sample ''scan'' ''session_7'' match_right_3 tile_tiff].
         pId c' = str_replace ''.tif'' '''' (img_path tile_double_ext)
       \<and> qId c' = str_replace ''.tif'' '''' (img_path tile_tiff))
   \<and> \<not> sublist ''.tif'' ''tile_009.png''
   \<and> str_replace ''.tif'' '''' ''tile_009.png'' = ''tile_009.png''
   \<and> \<not> sublist ''.tif'' ''tile_001''
   \<and> str_replace ''.tif'' '''' (''tile_001'' @ ''.tif'') = ''tile_001''
   \<and> \<not> sublist ''.tif'' ''scan''
   \<and> str_replace ''.tif'' '''' (''scan'' @ ''.tif'' @ ''.tif'')
       = ''scan'' @ str_replace ''.tif'' '''' ''.tif''
   \<and> str_replace ''.tif'' '''' ''scan.tif.tif'' = ''scan''
   \<and> str_replace ''.tif'' '''' ''tile.tiff'' = ''tilef''"
proof -
  let ?c = "sample ''scan'' ''session_7'' match_right_3 tile_tiff"
  let ?data = "[tile_double_ext, tile_tiff]"
  have run: "process example_metadata ?data = Inr (Flat [?c])"
    by code_simp
  have c: "?c \<in> set [?c]" by simp
  have h: "py_max (map (\<lambda>t. fst (raster_pos (img_meta t))) ?data) = Inr 1"
    "tile_double_ext \<in> set ?data" "matcher tile_double_ext = Some [match_right_3]"
    "match_right_3 \<in> set [match_right_3]" "match_quality match_right_3 \<noteq> - 1"
    by (simp_all add: tile_double_ext_def tile_tiff_def match_right_3_def)
  have res: "tile_from_tile \<lparr>raster_pos_lookup = create_raster_pos_dict ?data,
        trows = 0, tcols = 1\<rparr> tile_double_ext (position match_right_3) = Inr (Some tile_tiff)"
    by code_simp
  have absent: "\<not> sublist ''.tif'' ''tile_009.png''" "\<not> sublist ''.tif'' ''tile_001''"
    "\<not> sublist ''.tif'' ''scan''"
    by code_simp+
  have strings: "str_replace ''.tif'' '''' ''scan.tif.tif'' = ''scan''"
    "str_replace ''.tif'' '''' ''tile.tiff'' = ''tilef''"
    by code_simp+
  note all = ids_replace_every_tif [of example_metadata ?data "[?c]" ?c 0 1 tile_double_ext
      "[match_right_3]" match_right_3 tile_tiff "''tile_009.png''" "''tile_001''" "''scan''"
      "''.tif''"]
  note a1 = all [THEN conjunct1, THEN mp, OF conjI [OF run c]]
  note a2 = all [THEN conjunct2, THEN conjunct1, THEN mp,
      OF conjI [OF run conjI [OF h(1) conjI [OF h(2) conjI [OF h(3) conjI [OF h(4)
        conjI [OF h(5) res]]]]]]]
  note a3 = all [THEN conjunct2, THEN conjunct2, THEN conjunct1, THEN mp, OF absent(1)]
  note a4 = all [THEN conjunct2, THEN conjunct2, THEN conjunct2, THEN conjunct1, THEN mp,
      OF absent(2)]
  note a5 = all [THEN conjunct2, THEN conjunct2, THEN conjunct2, THEN conjunct2,
      THEN conjunct1, THEN mp, OF absent(3)]
  from run c a1 h res a2 absent a3 a4 a5 strings show ?thesis by blast
qed

theorem ids_replace_every_tif_counterexample:
  "process example_metadata [tile_double_ext, tile_tiff] =
     Inr (Flat [\<lparr>pId = ''scan'', qId = ''tilef'', pGroupId = ''session_7'',
                 qGroupId = ''session_7'',
                 matches = \<lparr>p = [[1, 2, 3], [4, 5, 6]], q = [[7, 8, 9], [10, 11, 12]],
                            w = [1, 1, 1], match_count = 3\<rparr>\<rparr>])
   \<and> img_path tile_double_ext = ''scan.tif'' @ ''.tif''
   \<and> str_replace ''.tif'' '''' (img_path tile_double_ext) \<noteq> ''scan.tif''
   \<and> \<not> suffix ''.tif'' (img_path tile_tiff)
   \<and> str_replace ''.tif'' '''' (img_path tile_tiff) \<noteq> img_path tile_tiff"
  by code_simp

end
